theory Spec2Isabelle
  imports Complex_Main
begin

section \<open>Scope of the embedding\<close>

text \<open>
  The repository holds several generations of \<^verbatim>\<open>diaes.js\<close>. The embedding follows the
  most recent one, the CommonJS module that closes \<^verbatim>\<open>src/js/lib/diaes.js\<close>
  (lines 1740 to 2615: \<^verbatim>\<open>Source\<close>, \<^verbatim>\<open>SourceQueue\<close>, \<^verbatim>\<open>Reader\<close>, \<^verbatim>\<open>Player\<close>,
  \<^verbatim>\<open>Manager\<close>); line numbers below are lines of that file. The older AMD module
  \<^verbatim>\<open>src/diaes.js\<close> has the same classes and differs in details, among them: its
  \<^verbatim>\<open>push\<close> has no duplicate check, its \<^verbatim>\<open>elapsed()\<close> leaves \<^verbatim>\<open>startsFrom\<close> out,
  and its seek is neither debounced nor guarded against a newer seek.

  Conventions.
  \<^item> Times are seconds on the audio clock (\<^verbatim>\<open>context.currentTime\<close>), taken as exact
    reals; every operation that reads the clock receives the reading as \<open>now\<close>.
  \<^item> Mutation is state passing: an operation takes the object and returns it updated.
  \<^item> A JavaScript \<^verbatim>\<open>null\<close> or \<^verbatim>\<open>undefined\<close> is \<open>None\<close>.
  \<^item> An uncaught \<^verbatim>\<open>TypeError\<close> (reading a property of \<^verbatim>\<open>undefined\<close> or
    \<^verbatim>\<open>null\<close>) is the value \<open>Inl TypeError\<close>.
  \<^item> Asynchronous work (XHR, \<^verbatim>\<open>decodeAudioData\<close>, timers) is a pending entry of the
    state together with a function that delivers its completion; the closures handed
    to it are the constructors of \<open>callback\<close>.
  \<^item> Calls on the collaborators (player callbacks, transport) are appended to a trace.
    Console output is not modelled.
\<close>

section \<open>Constants and JavaScript arithmetic\<close>

definition FRAGMENT_DURATION :: real where
  "FRAGMENT_DURATION = 15"

datatype queue_state = STATE_PAUSED | STATE_PLAYING | STATE_BUFFERING | STATE_FINISHED

datatype js_error = TypeError

text \<open>\<^verbatim>\<open>ToNumber\<close> on a value that is a number or \<^verbatim>\<open>null\<close>: \<^verbatim>\<open>null\<close> counts as 0.\<close>

definition js_number :: "real option \<Rightarrow> real" where
  "js_number v = (case v of None \<Rightarrow> 0 | Some x \<Rightarrow> x)"

text \<open>The remainder operator \<^verbatim>\<open>x % y\<close>: the quotient is truncated towards zero.\<close>

definition js_mod :: "real \<Rightarrow> real \<Rightarrow> real" where
  "js_mod x y = x - y * of_int (if 0 \<le> x / y then \<lfloor>x / y\<rfloor> else \<lceil>x / y\<rceil>)"

definition and_then :: "js_error + 'a \<Rightarrow> ('a \<Rightarrow> js_error + 'b) \<Rightarrow> js_error + 'b" where
  "and_then x f = (case x of Inl e \<Rightarrow> Inl e | Inr a \<Rightarrow> f a)"

text \<open>
  \<^verbatim>\<open>_.find(collection, predicate)\<close> of lodash: the first match, and \<^verbatim>\<open>undefined\<close>
  when nothing matches or when the collection itself is \<^verbatim>\<open>undefined\<close>.
\<close>

definition lodash_find :: "'a list option \<Rightarrow> ('a \<Rightarrow> bool) \<Rightarrow> 'a option" where
  "lodash_find collection p = (case collection of None \<Rightarrow> None | Some xs \<Rightarrow> find p xs)"

section \<open>Source\<close>

text \<open>An \<^verbatim>\<open>AudioBuffer\<close>; the scheduling code reads its duration only.\<close>

record AudioBuffer =
  duration :: real

text \<open>
  An \<^verbatim>\<open>AudioBufferSourceNode\<close>: whether it is connected to the gain node, and the
  arguments of its \<^verbatim>\<open>start(when, offset)\<close> once started.
\<close>

record AudioNode =
  node_connected :: bool
  node_started :: "(real \<times> real) option"

text \<open>
  \<^verbatim>\<open>Source\<close> (lines 1820 to 1833). \<open>number\<close> is the property that
  \<^verbatim>\<open>SourceQueue.prototype.push\<close> adds. \<open>endTimer\<close> is the delay in milliseconds of the
  pending timeout. \<open>endCallback\<close> is the closure installed by
  \<^verbatim>\<open>Reader.prototype.scheduleFragment\<close>, represented by the fragment number it captured.
  The back pointers \<^verbatim>\<open>queue\<close>, \<^verbatim>\<open>reader\<close> and \<^verbatim>\<open>player\<close> are the enclosing state.
\<close>

record Source =
  buffer :: AudioBuffer
  number :: "nat option"
  node :: "AudioNode option"
  startsAt :: "real option"
  startsFrom :: real
  endTimer :: "real option"
  endCallback :: "nat option"

definition Source_new :: "AudioBuffer \<Rightarrow> Source" where
  "Source_new b =
     \<lparr>buffer = b, number = None, node = None, startsAt = None, startsFrom = 0,
      endTimer = None, endCallback = None\<rparr>"

text \<open>
  \<^verbatim>\<open>Source.prototype.setup(index)\<close> (lines 1842 to 1860). \<open>srcs\<close> is the parent
  queue's \<^verbatim>\<open>sources\<close>; both callers pass an index below its length, so
  \<^verbatim>\<open>this.queue.get(index - 1)\<close> is a source.
\<close>

definition Source_setup :: "nat \<Rightarrow> real \<Rightarrow> Source list \<Rightarrow> Source \<Rightarrow> Source" where
  "Source_setup index now srcs s =
     (let s = s\<lparr>node := Some \<lparr>node_connected = True, node_started = None\<rparr>\<rparr>
      in if index > 0
         then (let previous = srcs ! (index - 1)
               in s\<lparr>startsAt :=
                     Some (js_number (startsAt previous) + duration (buffer previous)
                           - startsFrom previous)\<rparr>)
         else s\<lparr>startsAt := Some now\<rparr>)"

text \<open>
  \<^verbatim>\<open>Source.prototype.schedule()\<close> (lines 1865 to 1895). An exception of
  \<^verbatim>\<open>node.start\<close> is caught there, so a missing node changes nothing.
\<close>

definition Source_schedule :: "real \<Rightarrow> Source \<Rightarrow> Source" where
  "Source_schedule now s =
     (let endsAt = js_number (startsAt s) + duration (buffer s) - startsFrom s;
          endsIn = endsAt - now
      in s\<lparr>node := map_option (\<lambda>n. n\<lparr>node_started := Some (js_number (startsAt s), startsFrom s)\<rparr>)
                    (node s),
           endTimer := Some (endsIn * 1000 + 200)\<rparr>)"

text \<open>\<^verbatim>\<open>Source.prototype.cancel()\<close> (lines 1900 to 1906).\<close>

definition Source_cancel :: "Source \<Rightarrow> Source" where
  "Source_cancel s =
     s\<lparr>node := map_option (\<lambda>n. n\<lparr>node_connected := False\<rparr>) (node s), endTimer := None\<rparr>"

text \<open>\<^verbatim>\<open>Source.prototype.elapsed()\<close> (lines 1932 to 1934).\<close>

definition Source_elapsed :: "real \<Rightarrow> Source \<Rightarrow> real" where
  "Source_elapsed now s = now - js_number (startsAt s) + startsFrom s"

section \<open>SourceQueue\<close>

text \<open>
  \<^verbatim>\<open>SourceQueue\<close> (lines 1942 to 1948). The constructor assigns \<^verbatim>\<open>reader\<close>,
  \<^verbatim>\<open>state\<close>, \<^verbatim>\<open>sources\<close> and \<^verbatim>\<open>latestElapsed\<close>.
\<close>

record SourceQueue =
  state :: queue_state
  sources :: "Source list"
  latestElapsed :: "real option"

definition SourceQueue_new :: SourceQueue where
  "SourceQueue_new = \<lparr>state = STATE_PAUSED, sources = [], latestElapsed = Some 0\<rparr>"

text \<open>
  The property \<^verbatim>\<open>queue\<close> of a \<^verbatim>\<open>SourceQueue\<close> object. Neither the constructor nor the
  prototype nor any other line of the module assigns it (\<^verbatim>\<open>queue\<close> is a property of
  \<^verbatim>\<open>Source\<close> and of \<^verbatim>\<open>Reader\<close>), so reading it yields \<^verbatim>\<open>undefined\<close>.
\<close>

definition SourceQueue_queue :: "SourceQueue \<Rightarrow> Source list option" where
  "SourceQueue_queue q = None"

definition SourceQueue_isEmpty :: "SourceQueue \<Rightarrow> bool" where
  "SourceQueue_isEmpty q = (length (sources q) = 0)"

text \<open>
  \<^verbatim>\<open>SourceQueue.prototype.shift()\<close> (lines 1981 to 1985): destroys the head and removes
  it. On an empty queue \<^verbatim>\<open>this.first()\<close> is \<^verbatim>\<open>undefined\<close> and the call raises.
\<close>

definition SourceQueue_shift :: "SourceQueue \<Rightarrow> js_error + SourceQueue" where
  "SourceQueue_shift q =
     (case sources q of [] \<Rightarrow> Inl TypeError | s # rest \<Rightarrow> Inr (q\<lparr>sources := rest\<rparr>))"

text \<open>
  \<^verbatim>\<open>SourceQueue.prototype.push(buffer, number, beforeSetup)\<close> (lines 1990 to 2012).
  The duplicate check searches \<^verbatim>\<open>this.queue\<close>.
\<close>

definition SourceQueue_push ::
  "AudioBuffer \<Rightarrow> nat \<Rightarrow> (Source \<Rightarrow> Source) option \<Rightarrow> real \<Rightarrow> SourceQueue \<Rightarrow> SourceQueue" where
  "SourceQueue_push b n beforeSetup now q =
     (let source = Source_new b;
          sourceIndex = length (sources q)
      in if lodash_find (SourceQueue_queue q) (\<lambda>s. number s = Some n) \<noteq> None then q
         else
           (let source = source\<lparr>number := Some n\<rparr>;
                srcs = sources q @ [source];
                source = (case beforeSetup of None \<Rightarrow> source | Some f \<Rightarrow> f source);
                srcs = srcs[sourceIndex := source]
            in if state q = STATE_PLAYING
               then (let source = Source_schedule now (Source_setup sourceIndex now srcs source)
                     in q\<lparr>sources := srcs[sourceIndex := source]\<rparr>)
               else q\<lparr>sources := srcs\<rparr>))"

text \<open>
  \<^verbatim>\<open>SourceQueue.prototype.empty()\<close> (lines 2017 to 2021): shifts while the queue is
  not empty, so \<^verbatim>\<open>shift\<close> never raises here.
\<close>

fun empty_loop :: "Source list \<Rightarrow> Source list" where
  "empty_loop [] = []"
| "empty_loop (s # rest) = empty_loop rest"

definition SourceQueue_empty :: "SourceQueue \<Rightarrow> SourceQueue" where
  "SourceQueue_empty q = q\<lparr>sources := empty_loop (sources q)\<rparr>"

text \<open>
  The loop of \<^verbatim>\<open>SourceQueue.prototype.play()\<close> (lines 2040 to 2044): sets up and
  schedules the sources in queue order, each one reading its predecessor as already
  updated.
\<close>

definition play_step :: "real \<Rightarrow> Source list \<Rightarrow> nat \<Rightarrow> Source list" where
  "play_step now srcs i = srcs[i := Source_schedule now (Source_setup i now srcs (srcs ! i))]"

definition play_loop :: "real \<Rightarrow> Source list \<Rightarrow> Source list" where
  "play_loop now srcs = foldl (play_step now) srcs [0..<length srcs]"

text \<open>The loop of \<^verbatim>\<open>SourceQueue.prototype.pause()\<close> (lines 2063 to 2065).\<close>

definition cancel_loop :: "Source list \<Rightarrow> Source list" where
  "cancel_loop srcs = map Source_cancel srcs"

text \<open>\<^verbatim>\<open>SourceQueue.prototype.elapsed()\<close> (lines 2075 to 2083).\<close>

definition SourceQueue_elapsed :: "real \<Rightarrow> SourceQueue \<Rightarrow> real" where
  "SourceQueue_elapsed now q =
     (case latestElapsed q of
        Some e \<Rightarrow> e
      | None \<Rightarrow> (case sources q of [] \<Rightarrow> 0 | s # rest \<Rightarrow> Source_elapsed now s))"

section \<open>Reader\<close>

text \<open>
  A fragment descriptor (lines 2140 to 2146). The paths, key and initialisation vector
  feed the transport and the cipher only and are left out.
\<close>

record Fragment =
  fragment_buffer :: "AudioBuffer option"

text \<open>Calls on the player's callbacks and on the transport, in the order made.\<close>

datatype event =
    OnMetadataFetched | OnMetadataError
  | OnPlay | OnPause | OnFinish | OnBufferingStart | OnBufferingStop
  | XhrSend nat | DecodeAudioData nat
  | SetCurrentTimeCall real

text \<open>
  The closures passed to \<^verbatim>\<open>loadFragment\<close>, each with the variables it captured:
  the one of the constructor (lines 2117 to 2124), the one of
  \<^verbatim>\<open>loadAndScheduleFragment(number, offset)\<close> (lines 2293 to 2297) and the one of a
  seek (lines 2351 to 2362).
\<close>

datatype callback =
    Constructor_cb
  | LoadAndSchedule_cb nat "real option"
  | Seek_cb nat real

datatype stage = Fetching | Decoding

text \<open>
  \<^verbatim>\<open>Reader\<close> (lines 2091 to 2126). \<open>track_duration\<close> is the property \<^verbatim>\<open>duration\<close>;
  \<open>playingInterval\<close> tells whether the progress interval runs; \<open>metadataPending\<close>
  tells whether the metadata request is in flight; \<open>requests\<close> are the fragment loads
  in flight, each with its fragment number, its stage and the closure to call;
  \<open>waitingFragments\<close> are the seek times of the running polls of lines 2328 to 2335.
\<close>

record Reader =
  fragments :: "Fragment list"
  queue :: SourceQueue
  currentFragmentNumber :: nat
  buffering :: bool
  track_duration :: "real option"
  jumped :: bool
  playingInterval :: bool
  metadataPending :: bool
  requests :: "(nat \<times> stage \<times> callback) list"
  waitingFragments :: "real list"
  trace :: "event list"

text \<open>
  \<^verbatim>\<open>SourceQueue.prototype.play()\<close> (lines 2026 to 2045). It reaches into the reader
  (interval, callback, and the seek to 0 of a finished queue, which goes through the
  debounced \<^verbatim>\<open>setCurrentTime\<close> and is recorded in the trace), so it takes the reader.
\<close>

definition SourceQueue_play :: "real \<Rightarrow> Reader \<Rightarrow> Reader" where
  "SourceQueue_play now r =
     (let q = queue r
      in if state q = STATE_PLAYING then r
         else if state q = STATE_FINISHED then r\<lparr>trace := trace r @ [SetCurrentTimeCall 0]\<rparr>
         else r\<lparr>queue := q\<lparr>latestElapsed := None, state := STATE_PLAYING,
                              sources := play_loop now (sources q)\<rparr>,
                playingInterval := True,
                trace := trace r @ [OnPlay]\<rparr>)"

text \<open>\<^verbatim>\<open>SourceQueue.prototype.pause()\<close> (lines 2050 to 2070).\<close>

definition SourceQueue_pause :: "real \<Rightarrow> Reader \<Rightarrow> Reader" where
  "SourceQueue_pause now r =
     (let q = queue r
      in if state q = STATE_PAUSED then r
         else
           (let q = (case sources q of
                       [] \<Rightarrow> q
                     | s # rest \<Rightarrow> q\<lparr>latestElapsed := Some (Source_elapsed now s)\<rparr>);
                q = q\<lparr>state := STATE_PAUSED\<rparr>;
                q = q\<lparr>sources := cancel_loop (sources q)\<rparr>;
                q = (case sources q of
                       [] \<Rightarrow> q
                     | s # rest \<Rightarrow> q\<lparr>sources := s\<lparr>startsFrom := Source_elapsed now s\<rparr> # rest\<rparr>)
            in r\<lparr>queue := q, playingInterval := False, trace := trace r @ [OnPause]\<rparr>))"

text \<open>\<^verbatim>\<open>Reader.prototype.isFragmentLoaded(number)\<close> (lines 2219 to 2221).\<close>

definition Reader_isFragmentLoaded :: "nat \<Rightarrow> Reader \<Rightarrow> js_error + bool" where
  "Reader_isFragmentLoaded n r =
     (if n < length (fragments r) then Inr (fragment_buffer (fragments r ! n) \<noteq> None)
      else Inl TypeError)"

text \<open>The closure \<^verbatim>\<open>beforeSetup\<close> of \<^verbatim>\<open>scheduleFragment\<close> (lines 2262 to 2283).\<close>

definition scheduleFragment_beforeSetup :: "nat \<Rightarrow> real option \<Rightarrow> Source \<Rightarrow> Source" where
  "scheduleFragment_beforeSetup n offset source =
     (let source = source\<lparr>endCallback := Some n\<rparr>
      in case offset of
           None \<Rightarrow> source
         | Some off \<Rightarrow> if off \<noteq> 0 then source\<lparr>startsFrom := off\<rparr> else source)"

text \<open>
  \<^verbatim>\<open>Reader.prototype.scheduleFragment(number, offset)\<close> (lines 2257 to 2284). Its
  comment requires the fragment to be loaded; a missing fragment raises at
  \<^verbatim>\<open>this.fragments[number].buffer\<close>, and a \<^verbatim>\<open>null\<close> buffer at the first read of its
  duration, which the model reports at once.
\<close>

definition Reader_scheduleFragment :: "nat \<Rightarrow> real option \<Rightarrow> real \<Rightarrow> Reader \<Rightarrow> js_error + Reader" where
  "Reader_scheduleFragment n offset now r =
     (if n < length (fragments r)
      then (case fragment_buffer (fragments r ! n) of
              None \<Rightarrow> Inl TypeError
            | Some b \<Rightarrow>
                Inr (r\<lparr>queue := SourceQueue_push b n (Some (scheduleFragment_beforeSetup n offset))
                                    now (queue r)\<rparr>))
      else Inl TypeError)"

text \<open>
  \<^verbatim>\<open>Reader.prototype.fetchFragment\<close> (lines 2195 to 2214) as far as it is synchronous:
  the request is sent and stays in flight.
\<close>

definition Reader_fetchFragment :: "nat \<Rightarrow> callback \<Rightarrow> Reader \<Rightarrow> Reader" where
  "Reader_fetchFragment n k r =
     r\<lparr>requests := requests r @ [(n, Fetching, k)], trace := trace r @ [XhrSend n]\<rparr>"

text \<open>
  \<^verbatim>\<open>Reader.prototype.loadAndScheduleFragment(number, offset)\<close> (lines 2289 to 2298),
  with \<^verbatim>\<open>loadFragment\<close> unfolded at its own closure; no caller passes the third
  argument. \<open>loadAndSchedule_is_loadFragment\<close> below relates it to \<open>Reader_loadFragment\<close>.
\<close>

definition Reader_loadAndScheduleFragment ::
  "nat \<Rightarrow> real option \<Rightarrow> real \<Rightarrow> Reader \<Rightarrow> js_error + Reader" where
  "Reader_loadAndScheduleFragment n offset now r =
     (if n \<ge> length (fragments r) then Inr r
      else and_then (Reader_isFragmentLoaded n r) (\<lambda>loaded.
        if loaded then Reader_scheduleFragment n offset now r
        else Inr (Reader_fetchFragment n (LoadAndSchedule_cb n offset) r)))"

text \<open>The closure of the constructor (lines 2117 to 2124).\<close>

definition Constructor_loaded :: "real \<Rightarrow> Reader \<Rightarrow> js_error + Reader" where
  "Constructor_loaded now r =
     (if jumped r then Inr r
      else and_then (Reader_scheduleFragment 0 (Some 0) now r) (\<lambda>r.
        let r = r\<lparr>trace := trace r @ [OnBufferingStop]\<rparr>;
            r = r\<lparr>buffering := False\<rparr>
        in Reader_loadAndScheduleFragment 1 None now r))"

text \<open>The closure of a seek (lines 2351 to 2362).\<close>

definition Seek_loaded :: "nat \<Rightarrow> real \<Rightarrow> real \<Rightarrow> Reader \<Rightarrow> js_error + Reader" where
  "Seek_loaded n offset now r =
     (if currentFragmentNumber r \<noteq> n then Inr r
      else
        (let r = r\<lparr>trace := trace r @ [OnBufferingStop]\<rparr>;
             r = r\<lparr>buffering := False\<rparr>;
             r = SourceQueue_play now r
         in and_then (Reader_scheduleFragment n (Some offset) now r) (\<lambda>r.
              Reader_loadAndScheduleFragment (n + 1) None now r)))"

definition run_callback :: "callback \<Rightarrow> real \<Rightarrow> Reader \<Rightarrow> js_error + Reader" where
  "run_callback k now r =
     (case k of
        Constructor_cb \<Rightarrow> Constructor_loaded now r
      | LoadAndSchedule_cb n offset \<Rightarrow> Reader_scheduleFragment n offset now r
      | Seek_cb n offset \<Rightarrow> Seek_loaded n offset now r)"

text \<open>\<^verbatim>\<open>Reader.prototype.loadFragment(number, callback)\<close> (lines 2226 to 2249).\<close>

definition Reader_loadFragment :: "nat \<Rightarrow> callback \<Rightarrow> real \<Rightarrow> Reader \<Rightarrow> js_error + Reader" where
  "Reader_loadFragment n k now r =
     (if n \<ge> length (fragments r) then Inr r
      else and_then (Reader_isFragmentLoaded n r) (\<lambda>loaded.
        if loaded then run_callback k now r
        else Inr (Reader_fetchFragment n k r)))"

text \<open>
  The transport answers request \<open>j\<close> (\<^verbatim>\<open>request.onload\<close>, lines 2207 to 2211): the
  bytes are decrypted (\<^verbatim>\<open>decodeFragment\<close> reads \<^verbatim>\<open>this.fragments[number]\<close> and raises
  when that fragment is gone) and handed to \<^verbatim>\<open>decodeAudioData\<close> (line 2243). The cipher
  and the decoder are collaborators that are taken to succeed. A request that is not
  waiting for the transport gets no answer.
\<close>

definition Reader_xhr_onload :: "nat \<Rightarrow> Reader \<Rightarrow> js_error + Reader" where
  "Reader_xhr_onload j r =
     (if j < length (requests r)
      then (case requests r ! j of
              (n, Fetching, k) \<Rightarrow>
                if n < length (fragments r)
                then Inr (r\<lparr>requests := (requests r)[j := (n, Decoding, k)],
                           trace := trace r @ [DecodeAudioData n]\<rparr>)
                else Inl TypeError
            | (n, Decoding, k) \<Rightarrow> Inr r)
      else Inr r)"

text \<open>
  \<^verbatim>\<open>decodeAudioData\<close> delivers the buffer of request \<open>j\<close> (lines 2243 to 2247): the
  buffer is stored in \<^verbatim>\<open>this.fragments[number]\<close>, which raises when that fragment is
  gone, and the closure runs.
\<close>

definition Reader_decoded :: "nat \<Rightarrow> AudioBuffer \<Rightarrow> real \<Rightarrow> Reader \<Rightarrow> js_error + Reader" where
  "Reader_decoded j audioBuffer now r =
     (if j < length (requests r)
      then (case requests r ! j of
              (n, Decoding, k) \<Rightarrow>
                if n < length (fragments r)
                then run_callback k now
                       (r\<lparr>requests := take j (requests r) @ drop (Suc j) (requests r),
                          fragments := (fragments r)[n := (fragments r ! n)\<lparr>fragment_buffer := Some audioBuffer\<rparr>]\<rparr>)
                else Inl TypeError
            | (n, Fetching, k) \<Rightarrow> Inr r)
      else Inr r)"

text \<open>
  The closure \<^verbatim>\<open>endCallback\<close> that \<^verbatim>\<open>scheduleFragment(number, offset)\<close> installs
  (lines 2263 to 2276).
\<close>

definition Source_endCallback :: "nat \<Rightarrow> real \<Rightarrow> Reader \<Rightarrow> js_error + Reader" where
  "Source_endCallback n now r =
     (let r = r\<lparr>currentFragmentNumber := n + 1\<rparr>;
          r = (if currentFragmentNumber r \<ge> length (fragments r)
               then (let r = SourceQueue_pause now r;
                         r = r\<lparr>queue := (queue r)\<lparr>state := STATE_FINISHED\<rparr>\<rparr>
                     in r\<lparr>trace := trace r @ [OnFinish]\<rparr>)
               else r)
      in Reader_loadAndScheduleFragment (n + 2) None now r)"

text \<open>
  The timeout of source \<open>j\<close> of the queue fires (lines 1886 to 1894): it is no longer
  pending, the source's \<^verbatim>\<open>endCallback\<close> runs, then the queue is shifted.
\<close>

definition Source_endTimer_fired :: "nat \<Rightarrow> real \<Rightarrow> Reader \<Rightarrow> js_error + Reader" where
  "Source_endTimer_fired j now r =
     (if j < length (sources (queue r)) \<and> endTimer (sources (queue r) ! j) \<noteq> None
      then (let that = sources (queue r) ! j;
                r = r\<lparr>queue := (queue r)\<lparr>sources := (sources (queue r))[j := that\<lparr>endTimer := None\<rparr>]\<rparr>\<rparr>
            in and_then
                 (case endCallback that of
                    None \<Rightarrow> Inr r
                  | Some n \<Rightarrow> Source_endCallback n now r)
                 (\<lambda>r. and_then (SourceQueue_shift (queue r)) (\<lambda>q. Inr (r\<lparr>queue := q\<rparr>))))
      else Inr r)"

text \<open>\<^verbatim>\<open>Reader.prototype.getFragmentNumber(time)\<close> (lines 2158 to 2160).\<close>

definition Reader_getFragmentNumber :: "real \<Rightarrow> int" where
  "Reader_getFragmentNumber time = \<lfloor>time / FRAGMENT_DURATION\<rfloor>"



text \<open>
  The inner function \<^verbatim>\<open>setup\<close> of the seek (lines 2340 to 2363), up to the call of
  \<^verbatim>\<open>loadFragment\<close>, and the inner function as a whole. A negative time gives a negative
  fragment number, for which \<^verbatim>\<open>this.fragments[number]\<close> is \<^verbatim>\<open>undefined\<close> and
  \<^verbatim>\<open>isFragmentLoaded\<close> raises; the state that the raise leaves behind is not kept.
\<close>

definition seek_prepare :: "nat \<Rightarrow> real \<Rightarrow> Reader \<Rightarrow> Reader" where
  "seek_prepare n now r =
     (let r = r\<lparr>currentFragmentNumber := n\<rparr>;
          r = SourceQueue_pause now r;
          r = r\<lparr>buffering := True\<rparr>;
          r = r\<lparr>trace := trace r @ [OnBufferingStart]\<rparr>
      in r\<lparr>queue := SourceQueue_empty (queue r)\<rparr>)"

definition Reader_seek_setup :: "real \<Rightarrow> real \<Rightarrow> Reader \<Rightarrow> js_error + Reader" where
  "Reader_seek_setup time now r =
     (let number = Reader_getFragmentNumber time;
          offset = js_mod time FRAGMENT_DURATION
      in if number < 0 then Inl TypeError
         else Reader_loadFragment (nat number) (Seek_cb (nat number) offset) now
                (seek_prepare (nat number) now r))"

text \<open>
  The function that \<^verbatim>\<open>_.debounce\<close> wraps (lines 2322 to 2364): with no fragment
  known yet it polls every 100 ms, otherwise it seeks at once.
\<close>

definition Reader_setCurrentTime_body :: "real \<Rightarrow> real \<Rightarrow> Reader \<Rightarrow> js_error + Reader" where
  "Reader_setCurrentTime_body time now r =
     (let r = r\<lparr>jumped := True\<rparr>
      in if length (fragments r) = 0
         then Inr (r\<lparr>waitingFragments := waitingFragments r @ [time]\<rparr>)
         else Reader_seek_setup time now r)"


text \<open>
  The constructor (lines 2091 to 2126) up to the metadata request, and the two ways
  that request ends (\<^verbatim>\<open>fetchMetadata\<close>, lines 2131 to 2153); \<open>n\<close> is the number of
  fragments the metadata lists.
\<close>

definition Reader_new :: Reader where
  "Reader_new =
     \<lparr>fragments = [], queue = SourceQueue_new, currentFragmentNumber = 0, buffering = True,
      track_duration = None, jumped = False, playingInterval = False, metadataPending = True,
      requests = [], waitingFragments = [], trace = [OnBufferingStart]\<rparr>"

definition Reader_metadata_done :: "real \<Rightarrow> nat \<Rightarrow> real \<Rightarrow> Reader \<Rightarrow> js_error + Reader" where
  "Reader_metadata_done d n now r =
     (if metadataPending r
      then (let r = r\<lparr>metadataPending := False, track_duration := Some d\<rparr>;
                r = r\<lparr>fragments := fragments r @ replicate n \<lparr>fragment_buffer = None\<rparr>\<rparr>;
                r = r\<lparr>trace := trace r @ [OnMetadataFetched]\<rparr>
            in Reader_loadFragment 0 Constructor_cb now r)
      else Inr r)"

definition Reader_metadata_fail :: "Reader \<Rightarrow> Reader" where
  "Reader_metadata_fail r =
     (if metadataPending r
      then r\<lparr>metadataPending := False, trace := trace r @ [OnMetadataError]\<rparr>
      else r)"

section \<open>Player\<close>

text \<open>
  \<^verbatim>\<open>Player\<close> (lines 2386 to 2464). \<open>reader\<close> is \<open>None\<close> once \<^verbatim>\<open>destroy\<close> has deleted
  it; \<open>pausePolls\<close> counts the 10 ms intervals that \<^verbatim>\<open>Manager.prototype.pauseAll\<close> has
  started for this player (lines 2599 to 2604); what their ticks do is not modelled.
\<close>

record Player =
  player_id :: nat
  reader :: "Reader option"
  pausePolls :: nat

text \<open>\<^verbatim>\<open>Player.prototype.pause()\<close> (lines 2452 to 2454).\<close>

definition Player_pause :: "real \<Rightarrow> Player \<Rightarrow> js_error + Player" where
  "Player_pause now p =
     (case reader p of
        None \<Rightarrow> Inl TypeError
      | Some r \<Rightarrow> Inr (p\<lparr>reader := Some (SourceQueue_pause now r)\<rparr>))"

text \<open>
  \<^verbatim>\<open>Player.prototype.destroy()\<close> (lines 2459 to 2464) with \<^verbatim>\<open>Reader.prototype.destroy()\<close>
  (lines 2369 to 2379): the queue is emptied, which cancels every timer, and the reader
  is deleted. Loads of the destroyed reader that are still in flight are dropped with it.
\<close>

definition Player_destroy :: "Player \<Rightarrow> js_error + Player" where
  "Player_destroy p =
     (case reader p of
        None \<Rightarrow> Inl TypeError
      | Some r \<Rightarrow> Inr (p\<lparr>reader := None\<rparr>))"

section \<open>Manager\<close>

datatype hook = OnMute | OnUnmute | OnVolumeChange

text \<open>
  A \<^verbatim>\<open>Manager\<close> instance (lines 2473 to 2527) as an object with own properties. The
  constructor creates the gain node (\<open>gain\<close> is its \<^verbatim>\<open>gain.value\<close>, 1 for a new node)
  and assigns nothing else that the methods below read. \<open>own_muted\<close>, \<open>own_volume\<close> and
  \<open>own_players\<close> are the instance's own \<^verbatim>\<open>muted\<close>, \<^verbatim>\<open>volume\<close> and \<^verbatim>\<open>players\<close>, \<open>None\<close>
  as long as nothing has assigned them; \<open>own_players\<close> would be the address of an array.
  \<open>hooks\<close> lists the calls of \<^verbatim>\<open>onMute\<close>, \<^verbatim>\<open>onUnmute\<close> and \<^verbatim>\<open>onVolumeChange\<close>.
\<close>

record Manager =
  gain :: real
  own_muted :: "bool option"
  own_volume :: "real option"
  own_players :: "nat option"
  hooks :: "hook list"

definition Manager_new :: Manager where
  "Manager_new = \<lparr>gain = 1, own_muted = None, own_volume = None, own_players = None, hooks = []\<rparr>"

text \<open>
  Reading \<^verbatim>\<open>this.muted\<close> and \<^verbatim>\<open>this.volume\<close>: the own property, else the value of
  the prototype (\<^verbatim>\<open>false\<close> and \<^verbatim>\<open>1.0\<close>, lines 2531 and 2532, which nothing assigns).
\<close>

definition Manager_muted :: "Manager \<Rightarrow> bool" where
  "Manager_muted m = (case own_muted m of Some b \<Rightarrow> b | None \<Rightarrow> False)"

definition Manager_volume :: "Manager \<Rightarrow> real" where
  "Manager_volume m = (case own_volume m of Some v \<Rightarrow> v | None \<Rightarrow> 1)"

text \<open>\<^verbatim>\<open>Manager.prototype.mute()\<close> (lines 2564 to 2569).\<close>

definition Manager_mute :: "Manager \<Rightarrow> Manager" where
  "Manager_mute m = m\<lparr>own_muted := Some True, gain := 0, hooks := hooks m @ [OnMute]\<rparr>"

text \<open>\<^verbatim>\<open>Manager.prototype.setVolume(volume)\<close> (lines 2584 to 2589).\<close>

definition Manager_setVolume :: "real \<Rightarrow> Manager \<Rightarrow> Manager" where
  "Manager_setVolume v m = m\<lparr>own_volume := Some v, gain := v, hooks := hooks m @ [OnVolumeChange]\<rparr>"

text \<open>\<^verbatim>\<open>Manager.prototype.unmute()\<close> (lines 2574 to 2579).\<close>

definition Manager_unmute :: "Manager \<Rightarrow> Manager" where
  "Manager_unmute m =
     (let m = m\<lparr>own_muted := Some False\<rparr>;
          m = Manager_setVolume (Manager_volume m) m
      in m\<lparr>hooks := hooks m @ [OnUnmute]\<rparr>)"

section \<open>The page: managers, players and arrays\<close>

text \<open>
  The objects of one page, in stores indexed by address: \<open>managers\<close>, \<open>players\<close>, and
  \<open>arrays\<close>, the arrays of player addresses. \<open>prototype_players\<close> is the address of the
  array that the object literal of lines 2529 to 2537 creates as
  \<^verbatim>\<open>Manager.prototype.players\<close>, when the module is loaded.
\<close>

record Page =
  managers :: "Manager list"
  players :: "Player list"
  arrays :: "nat list list"
  prototype_players :: nat
  debounce_pending :: "(nat \<times> real \<times> real) option"

definition Page_new :: Page where
  "Page_new =
     \<lparr>managers = [], players = [], arrays = [[]], prototype_players = 0, debounce_pending = None\<rparr>"

text \<open>
  Reading \<^verbatim>\<open>this.players\<close> on manager \<open>m\<close>: the own property if the instance has one,
  else the property of the prototype. The result is the address of an array;
  \<open>Manager_players\<close> is that array's content.
\<close>

definition Manager_players_ref :: "Page \<Rightarrow> nat \<Rightarrow> nat" where
  "Manager_players_ref pg m =
     (case own_players (managers pg ! m) of Some ar \<Rightarrow> ar | None \<Rightarrow> prototype_players pg)"

definition Manager_players :: "Page \<Rightarrow> nat \<Rightarrow> nat list" where
  "Manager_players pg m = arrays pg ! Manager_players_ref pg m"

text \<open>\<^verbatim>\<open>new Manager()\<close>: the new manager's address is returned with the page.\<close>

definition Manager_create :: "Page \<Rightarrow> Page \<times> nat" where
  "Manager_create pg = (pg\<lparr>managers := managers pg @ [Manager_new]\<rparr>, length (managers pg))"

text \<open>
  \<^verbatim>\<open>Manager.prototype.add(path, config)\<close> (lines 2542 to 2548) on manager \<open>m\<close>: the new
  player gets \<^verbatim>\<open>this.players.length\<close> as id and is pushed on the array that
  \<^verbatim>\<open>this.players\<close> refers to. Its address is returned with the page.
\<close>

definition Manager_add :: "nat \<Rightarrow> Page \<Rightarrow> Page \<times> nat" where
  "Manager_add m pg =
     (let player = \<lparr>player_id = length (Manager_players pg m), reader = Some Reader_new,
                     pausePolls = 0\<rparr>;
          a = length (players pg);
          ar = Manager_players_ref pg m
      in (pg\<lparr>players := players pg @ [player],
             arrays := (arrays pg)[ar := arrays pg ! ar @ [a]]\<rparr>, a))"

text \<open>
  \<^verbatim>\<open>Manager.prototype.destroyUnused()\<close> (lines 2553 to 2559): while more than one
  player is listed, the first is shifted out of the array and destroyed.
\<close>

fun destroyUnused_loop :: "nat list \<Rightarrow> Player list \<Rightarrow> js_error + (nat list \<times> Player list)" where
  "destroyUnused_loop (a # b # rest) ps =
     (if a < length ps
      then and_then (Player_destroy (ps ! a)) (\<lambda>p. destroyUnused_loop (b # rest) (ps[a := p]))
      else Inl TypeError)"
| "destroyUnused_loop listed ps = Inr (listed, ps)"

definition Manager_destroyUnused :: "nat \<Rightarrow> Page \<Rightarrow> js_error + Page" where
  "Manager_destroyUnused m pg =
     and_then (destroyUnused_loop (Manager_players pg m) (players pg))
       (\<lambda>(listed, ps).
          Inr (pg\<lparr>players := ps, arrays := (arrays pg)[Manager_players_ref pg m := listed]\<rparr>))"

text \<open>
  \<^verbatim>\<open>Manager.prototype.pauseAll(id)\<close> (lines 2594 to 2607): every listed player is
  paused; one that is buffering and whose id differs from the argument also gets a poll
  started.
\<close>

definition pauseAll_step :: "nat option \<Rightarrow> real \<Rightarrow> Player \<Rightarrow> js_error + Player" where
  "pauseAll_step except now p =
     and_then (Player_pause now p) (\<lambda>p.
       case reader p of
         None \<Rightarrow> Inl TypeError
       | Some r \<Rightarrow>
           Inr (if buffering r \<and> Some (player_id p) \<noteq> except
                then p\<lparr>pausePolls := pausePolls p + 1\<rparr> else p))"

fun pauseAll_loop :: "nat option \<Rightarrow> real \<Rightarrow> nat list \<Rightarrow> Player list \<Rightarrow> js_error + Player list" where
  "pauseAll_loop except now [] ps = Inr ps"
| "pauseAll_loop except now (a # listed) ps =
     (if a < length ps
      then and_then (pauseAll_step except now (ps ! a)) (\<lambda>p. pauseAll_loop except now listed (ps[a := p]))
      else Inl TypeError)"

definition Manager_pauseAll :: "nat option \<Rightarrow> nat \<Rightarrow> real \<Rightarrow> Page \<Rightarrow> js_error + Page" where
  "Manager_pauseAll except m now pg =
     and_then (pauseAll_loop except now (Manager_players pg m) (players pg))
       (\<lambda>ps. Inr (pg\<lparr>players := ps\<rparr>))"

text \<open>A method of \<^verbatim>\<open>Manager\<close> that works on the instance alone, called on manager \<open>m\<close>.\<close>

definition on_manager :: "nat \<Rightarrow> (Manager \<Rightarrow> Manager) \<Rightarrow> Page \<Rightarrow> Page" where
  "on_manager m method pg = pg\<lparr>managers := (managers pg)[m := method (managers pg ! m)]\<rparr>"

section \<open>The debounced seek\<close>

text \<open>
  Line 2322 assigns \<^verbatim>\<open>_.debounce(f, 300)\<close> to \<^verbatim>\<open>Reader.prototype.setCurrentTime\<close>:
  one debounced function, on the prototype, for all readers. \<open>DEBOUNCE_WAIT\<close> is its
  wait in milliseconds. \<open>debounce_pending\<close> holds what the debounced function remembers:
  the player whose reader received the last call, the time asked for, and the deadline
  in milliseconds of wall-clock time.
\<close>

definition DEBOUNCE_WAIT :: real where
  "DEBOUNCE_WAIT = 300"

text \<open>
  Modelled from the spec: \<^verbatim>\<open>_.debounce\<close> belongs to the lodash library, which is not
  among the sources. Following the spec (bursts of calls within the window collapse to
  one effective seek using the last requested time), a call of the debounced function
  runs nothing: it stores its receiver and its argument and moves the deadline to
  \<open>DEBOUNCE_WAIT\<close> after the call.
\<close>

definition Reader_setCurrentTime :: "nat \<Rightarrow> real \<Rightarrow> real \<Rightarrow> Page \<Rightarrow> Page" where
  "Reader_setCurrentTime a time wall pg =
     pg\<lparr>debounce_pending := Some (a, time, wall + DEBOUNCE_WAIT)\<rparr>"

text \<open>
  Modelled from the spec: the timer of the debounced function at wall-clock time
  \<open>wall\<close>. Before the deadline nothing happens; once it has passed, the wrapped
  function (lines 2322 to 2364) runs once, on the stored reader with the stored time,
  and nothing stays pending. A player destroyed in the meantime is skipped.
\<close>

definition debounce_timer :: "real \<Rightarrow> real \<Rightarrow> Page \<Rightarrow> js_error + Page" where
  "debounce_timer wall now pg =
     (case debounce_pending pg of
        None \<Rightarrow> Inr pg
      | Some (a, time, deadline) \<Rightarrow>
          if wall < deadline then Inr pg
          else if a < length (players pg)
          then (case reader (players pg ! a) of
                  None \<Rightarrow> Inr (pg\<lparr>debounce_pending := None\<rparr>)
                | Some r \<Rightarrow>
                    and_then (Reader_setCurrentTime_body time now r) (\<lambda>r.
                      Inr (pg\<lparr>debounce_pending := None,
                             players := (players pg)[a := (players pg ! a)\<lparr>reader := Some r\<rparr>]\<rparr>)))
          else Inr (pg\<lparr>debounce_pending := None\<rparr>))"

text \<open>
  A burst of seeks on the reader of player \<open>a\<close>: each call is made at its wall-clock
  time, after the timer has had its turn at that time.
\<close>

fun seek_burst :: "nat \<Rightarrow> (real \<times> real) list \<Rightarrow> real \<Rightarrow> Page \<Rightarrow> js_error + Page" where
  "seek_burst a [] now pg = Inr pg"
| "seek_burst a ((wall, time) # calls) now pg =
     and_then (debounce_timer wall now pg) (\<lambda>pg.
       seek_burst a calls now (Reader_setCurrentTime a time wall pg))"

text \<open>
  A step of the reader of player \<open>a\<close> at wall-clock time \<open>wall\<close>. A call of
  \<^verbatim>\<open>this.reader.setCurrentTime\<close> that the step has added to the trace (line 2031) goes to
  the debounced function.
\<close>

definition debounce_calls :: "nat \<Rightarrow> real \<Rightarrow> event list \<Rightarrow> Page \<Rightarrow> Page" where
  "debounce_calls a wall added pg =
     foldl (\<lambda>pg e. case e of SetCurrentTimeCall time \<Rightarrow> Reader_setCurrentTime a time wall pg | _ \<Rightarrow> pg)
       pg added"

definition on_reader :: "nat \<Rightarrow> real \<Rightarrow> (Reader \<Rightarrow> js_error + Reader) \<Rightarrow> Page \<Rightarrow> js_error + Page" where
  "on_reader a wall step pg =
     (if a < length (players pg)
      then (case reader (players pg ! a) of
              None \<Rightarrow> Inl TypeError
            | Some r \<Rightarrow>
                and_then (step r) (\<lambda>r'.
                  Inr (debounce_calls a wall (drop (length (trace r)) (trace r'))
                         (pg\<lparr>players := (players pg)[a := (players pg ! a)\<lparr>reader := Some r'\<rparr>]\<rparr>))))
      else Inl TypeError)"

text \<open>\<^verbatim>\<open>Player.prototype.play()\<close> (lines 2445 to 2447).\<close>

definition Player_play :: "nat \<Rightarrow> real \<Rightarrow> real \<Rightarrow> Page \<Rightarrow> js_error + Page" where
  "Player_play a wall now pg = on_reader a wall (\<lambda>r. Inr (SourceQueue_play now r)) pg"

text \<open>
  The pages that the module's operations produce from the page as loaded: managers
  are constructed, their methods are called, readers take steps, seeks are asked for
  and the debounce timer runs.
\<close>

inductive reachable :: "Page \<Rightarrow> bool" where
  loaded: "reachable Page_new"
| created: "reachable pg \<Longrightarrow> reachable (fst (Manager_create pg))"
| added: "reachable pg \<Longrightarrow> m < length (managers pg) \<Longrightarrow> reachable (fst (Manager_add m pg))"
| muted: "reachable pg \<Longrightarrow> m < length (managers pg) \<Longrightarrow> reachable (on_manager m Manager_mute pg)"
| unmuted: "reachable pg \<Longrightarrow> m < length (managers pg) \<Longrightarrow> reachable (on_manager m Manager_unmute pg)"
| volume_set: "reachable pg \<Longrightarrow> m < length (managers pg) \<Longrightarrow>
     reachable (on_manager m (Manager_setVolume v) pg)"
| paused_all: "reachable pg \<Longrightarrow> m < length (managers pg) \<Longrightarrow>
     Manager_pauseAll except m now pg = Inr pg' \<Longrightarrow> reachable pg'"
| destroyed_unused: "reachable pg \<Longrightarrow> m < length (managers pg) \<Longrightarrow>
     Manager_destroyUnused m pg = Inr pg' \<Longrightarrow> reachable pg'"
| reader_stepped: "reachable pg \<Longrightarrow> on_reader a wall step pg = Inr pg' \<Longrightarrow> reachable pg'"
| seek_asked: "reachable pg \<Longrightarrow> reachable (Reader_setCurrentTime a time wall pg)"
| timer_ran: "reachable pg \<Longrightarrow> debounce_timer wall now pg = Inr pg' \<Longrightarrow> reachable pg'"

section \<open>Gapless chaining\<close>

text \<open>
  The time at which the audible content of a source ends, as \<^verbatim>\<open>setup\<close> computes it
  for the successor.
\<close>

definition chain_time :: "Source \<Rightarrow> real" where
  "chain_time u = js_number (startsAt u) + duration (buffer u) - startsFrom u"

text \<open>Every source of the list starts where its predecessor ends.\<close>

fun gapless :: "Source list \<Rightarrow> bool" where
  "gapless (u # v # us) =
     (startsAt v = Some (js_number (startsAt u) + duration (buffer u) - startsFrom u) \<and> gapless (v # us))"
| "gapless us = True"

text \<open>The first \<open>k\<close> sources carry the start times that \<^verbatim>\<open>setup\<close> assigns.\<close>

definition timed :: "real \<Rightarrow> Source list \<Rightarrow> nat \<Rightarrow> bool" where
  "timed now us k =
     (\<forall>i<k. startsAt (us ! i) = Some (if 0 < i then chain_time (us ! (i - 1)) else now))"

text \<open>
  The readers whose queue was set playing by \<^verbatim>\<open>play()\<close> and has since been pushed to
  and shifted, at any clock readings.
\<close>

inductive scheduled_playing :: "Reader \<Rightarrow> bool" where
  by_play: "state (queue r) = STATE_PAUSED \<Longrightarrow> scheduled_playing (SourceQueue_play now r)"
| by_push: "scheduled_playing r \<Longrightarrow>
     scheduled_playing (r\<lparr>queue := SourceQueue_push b n beforeSetup now (queue r)\<rparr>)"
| by_shift: "scheduled_playing r \<Longrightarrow> SourceQueue_shift (queue r) = Inr q \<Longrightarrow>
     scheduled_playing (r\<lparr>queue := q\<rparr>)"

section \<open>Example states\<close>

text \<open>A reader whose metadata listed four fragments, the first two of them loaded.\<close>

definition example_reader :: Reader where
  "example_reader =
     Reader_new\<lparr>fragments := [\<lparr>fragment_buffer = Some \<lparr>duration = 15\<rparr>\<rparr>,
                              \<lparr>fragment_buffer = Some \<lparr>duration = 15\<rparr>\<rparr>,
                              \<lparr>fragment_buffer = None\<rparr>,
                              \<lparr>fragment_buffer = None\<rparr>],
                 metadataPending := False, buffering := False\<rparr>"

text \<open>The same reader with fragments 0 (from offset 4) and 1 queued while paused.\<close>

definition two_queued :: Reader where
  "two_queued =
     example_reader\<lparr>queue :=
       SourceQueue_push \<lparr>duration = 15\<rparr> 1 None 0
         (SourceQueue_push \<lparr>duration = 15\<rparr> 0 (Some (scheduleFragment_beforeSetup 0 (Some 4))) 0 SourceQueue_new)\<rparr>"

text \<open>The same reader after \<^verbatim>\<open>play()\<close> at clock time 0.\<close>

definition playing_reader :: Reader where
  "playing_reader = SourceQueue_play 0 two_queued"



text \<open>
  A new reader whose metadata lists four fragments: fragment 0 is fetched and decoded,
  which schedules it and starts the prefetch of fragment 1; a seek to 5 s arrives while
  that prefetch is in flight and asks for fragment 1 again; then both requests for
  fragment 1 are answered and decoded.
\<close>

definition seek_during_prefetch :: "js_error + Reader" where
  "seek_during_prefetch =
     and_then (Reader_metadata_done 47 4 0 Reader_new) (\<lambda>r.
     and_then (Reader_xhr_onload 0 r) (\<lambda>r.
     and_then (Reader_decoded 0 \<lparr>duration = 15\<rparr> 0 r) (\<lambda>r.
     and_then (Reader_setCurrentTime_body 5 1 r) (\<lambda>r.
     and_then (Reader_xhr_onload 0 r) (\<lambda>r.
     and_then (Reader_xhr_onload 1 r) (\<lambda>r.
     and_then (Reader_decoded 0 \<lparr>duration = 15\<rparr> 2 r) (\<lambda>r.
     Reader_decoded 0 \<lparr>duration = 15\<rparr> 3 r)))))))"

text \<open>Two managers on one page, and the page after the first has added a player that plays.\<close>

definition two_managers :: Page where
  "two_managers = fst (Manager_create (fst (Manager_create Page_new)))"

definition one_player_playing :: Page where
  "one_player_playing =
     (let pg = fst (Manager_add 0 two_managers)
      in pg\<lparr>players := (players pg)[0 := (players pg ! 0)\<lparr>reader := Some playing_reader\<rparr>]\<rparr>)"

section \<open>Auxiliary notions of the statements\<close>

text \<open>
  Calls of \<^verbatim>\<open>loadFragment(i, k)\<close> for the callbacks \<open>k\<close> of \<open>ks\<close>, one after the other
  with no completion in between.
\<close>

fun loadFragment_calls :: "nat \<Rightarrow> callback list \<Rightarrow> real \<Rightarrow> Reader \<Rightarrow> js_error + Reader" where
  "loadFragment_calls i [] now r = Inr r"
| "loadFragment_calls i (k # ks) now r =
     and_then (Reader_loadFragment i k now r) (loadFragment_calls i ks now)"

text \<open>
  No manager has a \<^verbatim>\<open>players\<close> property of its own, and the prototype's refers to an
  array of the store.
\<close>

definition page_inv :: "Page \<Rightarrow> bool" where
  "page_inv pg =
     ((\<forall>m<length (managers pg). own_players (managers pg ! m) = None) \<and>
      prototype_players pg < length (arrays pg))"


text \<open>The queue of the player's reader is paused.\<close>

definition is_paused :: "Player \<Rightarrow> bool" where
  "is_paused p = (case reader p of None \<Rightarrow> False | Some r \<Rightarrow> state (queue r) = STATE_PAUSED)"

text \<open>
  A burst of calls, each given as wall-clock time and seek time: every call follows
  its predecessor by less than the wait.
\<close>

fun within_window :: "(real \<times> real) list \<Rightarrow> bool" where
  "within_window (c # d # calls) =
     (fst c \<le> fst d \<and> fst d < fst c + DEBOUNCE_WAIT \<and> within_window (d # calls))"
| "within_window calls = True"

text \<open>At wall-clock time \<open>wall\<close> the debounce timer has nothing to run.\<close>

definition not_due :: "real \<Rightarrow> Page \<Rightarrow> bool" where
  "not_due wall pg =
     (case debounce_pending pg of None \<Rightarrow> True | Some (a, time, deadline) \<Rightarrow> wall < deadline)"

section \<open>Gapless timing (C1)\<close>

lemma schedule_keeps:
  "startsAt (Source_schedule now s) = startsAt s"
  "startsFrom (Source_schedule now s) = startsFrom s"
  "buffer (Source_schedule now s) = buffer s"
  by (simp_all add: Source_schedule_def Let_def)

lemma setup_keeps:
  "startsFrom (Source_setup i now srcs s) = startsFrom s"
  "buffer (Source_setup i now srcs s) = buffer s"
  by (simp_all add: Source_setup_def Let_def)

lemma setup_startsAt:
  "startsAt (Source_setup i now srcs s) =
     Some (if 0 < i then chain_time (srcs ! (i - 1)) else now)"
  by (simp add: Source_setup_def Let_def chain_time_def)

lemma length_play_step [simp]: "length (play_step now srcs i) = length srcs"
  by (simp add: play_step_def)

lemma length_foldl_play_step [simp]: "length (foldl (play_step now) srcs is) = length srcs"
  by (induction "is" arbitrary: srcs) simp_all

lemma play_prefix:
  "k \<le> length srcs \<Longrightarrow>
     timed now (foldl (play_step now) srcs [0..<k]) k \<and>
     (\<forall>i<length srcs. k \<le> i \<longrightarrow> foldl (play_step now) srcs [0..<k] ! i = srcs ! i) \<and>
     (\<forall>i<length srcs. startsFrom (foldl (play_step now) srcs [0..<k] ! i) = startsFrom (srcs ! i)
         \<and> buffer (foldl (play_step now) srcs [0..<k] ! i) = buffer (srcs ! i))"
proof (induction k)
  case 0
  then show ?case by (simp add: timed_def)
next
  case (Suc k)
  define res where "res = foldl (play_step now) srcs [0..<k]"
  have len: "length res = length srcs" by (simp add: res_def)
  have k: "k < length srcs" using Suc.prems by simp
  from Suc.IH k have ih1: "timed now res k"
    and ih2: "\<forall>i<length srcs. k \<le> i \<longrightarrow> res ! i = srcs ! i"
    and ih3: "\<forall>i<length srcs. startsFrom (res ! i) = startsFrom (srcs ! i) \<and> buffer (res ! i) = buffer (srcs ! i)"
    by (simp_all add: res_def)
  have step: "foldl (play_step now) srcs [0..<Suc k] = play_step now res k"
    by (simp add: res_def)
  define new where "new = Source_schedule now (Source_setup k now res (res ! k))"
  have ps: "play_step now res k = res[k := new]" by (simp add: play_step_def new_def)
  have new_at: "startsAt new = Some (if 0 < k then chain_time (res ! (k - 1)) else now)"
    by (simp add: new_def schedule_keeps setup_startsAt)
  have new_keep: "startsFrom new = startsFrom (res ! k)" "buffer new = buffer (res ! k)"
    by (simp_all add: new_def schedule_keeps setup_keeps)
  have chain_same: "\<And>i. i < k \<Longrightarrow> chain_time (res[k := new] ! i) = chain_time (res ! i)"
    by simp
  have t: "timed now (res[k := new]) (Suc k)"
    unfolding timed_def
  proof (intro allI impI)
    fix i assume i: "i < Suc k"
    show "startsAt (res[k := new] ! i) = Some (if 0 < i then chain_time (res[k := new] ! (i - 1)) else now)"
    proof (cases "i = k")
      case True
      then show ?thesis using new_at k len by (cases k) simp_all
    next
      case False
      with i have ik: "i < k" by simp
      then show ?thesis using ih1 by (simp add: timed_def)
    qed
  qed
  have u: "\<forall>i<length srcs. Suc k \<le> i \<longrightarrow> res[k := new] ! i = srcs ! i"
    using ih2 by simp
  have f: "\<forall>i<length srcs. startsFrom (res[k := new] ! i) = startsFrom (srcs ! i)
        \<and> buffer (res[k := new] ! i) = buffer (srcs ! i)"
    using ih3 new_keep k len by (auto simp: nth_list_update)
  show ?case unfolding step ps using t u f by blast
qed

lemma timed_gapless: "timed now us (length us) \<Longrightarrow> gapless us"
proof (induction us arbitrary: now rule: gapless.induct)
  case (1 u v us)
  from 1(2) have a: "startsAt v = Some (chain_time u)"
    by (auto simp: timed_def dest: spec[of _ 1])
  have "timed (chain_time u) (v # us) (length (v # us))"
    unfolding timed_def
  proof (intro allI impI)
    fix i assume "i < length (v # us)"
    then have "Suc i < length (u # v # us)" by simp
    with 1(2) have "startsAt ((u # v # us) ! Suc i) = Some (chain_time ((u # v # us) ! i))"
      unfolding timed_def by (metis diff_Suc_1 zero_less_Suc)
    then show "startsAt ((v # us) ! i) = Some (if 0 < i then chain_time ((v # us) ! (i - 1)) else chain_time u)"
      using a by (cases i) simp_all
  qed
  with 1(1) a show ?case by (simp add: chain_time_def)
qed simp_all

lemma play_loop_gapless: "gapless (play_loop now srcs)"
  using play_prefix[of "length srcs" srcs now] by (auto simp: play_loop_def intro: timed_gapless)

lemma gapless_snoc:
  "gapless (us @ [x]) \<longleftrightarrow> gapless us \<and> (us = [] \<or> startsAt x = Some (chain_time (last us)))"
  by (induction us rule: gapless.induct) (auto simp: chain_time_def)

lemma gapless_tl: "gapless (u # us) \<Longrightarrow> gapless us"
  by (cases us) simp_all

lemma gapless_nth:
  "gapless us \<Longrightarrow> Suc i < length us \<Longrightarrow> startsAt (us ! Suc i) = Some (chain_time (us ! i))"
proof (induction us arbitrary: i rule: gapless.induct)
  case (1 u v us)
  then show ?case by (cases i) (simp_all add: chain_time_def)
qed simp_all

lemma push_sources:
  "sources (SourceQueue_push b n f now q) =
     sources q @
       [let s0 = (case f of None \<Rightarrow> (Source_new b)\<lparr>number := Some n\<rparr>
                  | Some g \<Rightarrow> g ((Source_new b)\<lparr>number := Some n\<rparr>))
        in if state q = STATE_PLAYING
           then Source_schedule now (Source_setup (length (sources q)) now (sources q @ [s0]) s0)
           else s0]"
  by (simp add: SourceQueue_push_def SourceQueue_queue_def lodash_find_def Let_def)

lemma push_state [simp]: "state (SourceQueue_push b n f now q) = state q"
  by (simp add: SourceQueue_push_def Let_def)

lemma push_gapless:
  assumes "state q = STATE_PLAYING" "gapless (sources q)"
  shows "gapless (sources (SourceQueue_push b n f now q))"
proof (cases "sources q = []")
  case True
  then show ?thesis by (simp add: push_sources)
next
  case False
  then have "(sources q @ [x]) ! (length (sources q) - 1) = last (sources q)" for x
    by (simp add: nth_append last_conv_nth)
  with False assms show ?thesis
    by (simp add: push_sources gapless_snoc Let_def schedule_keeps setup_startsAt)
qed

lemma push_all_set:
  assumes "state q = STATE_PLAYING" "\<forall>u\<in>set (sources q). startsAt u \<noteq> None"
  shows "\<forall>u\<in>set (sources (SourceQueue_push b n f now q)). startsAt u \<noteq> None"
  using assms by (simp add: push_sources Let_def schedule_keeps setup_startsAt)

lemma play_loop_all_set: "\<forall>u\<in>set (play_loop now srcs). startsAt u \<noteq> None"
proof -
  have "timed now (play_loop now srcs) (length srcs)"
    using play_prefix[of "length srcs" srcs now] by (simp add: play_loop_def)
  then show ?thesis
    by (auto simp: timed_def in_set_conv_nth play_loop_def)
qed

lemma scheduled_playing_inv:
  "scheduled_playing r \<Longrightarrow>
     state (queue r) = STATE_PLAYING \<and> gapless (sources (queue r)) \<and>
     (\<forall>u\<in>set (sources (queue r)). startsAt u \<noteq> None)"
proof (induction rule: scheduled_playing.induct)
  case (by_play r now)
  then show ?case
    using play_loop_all_set[of now "sources (queue r)"]
    by (simp add: SourceQueue_play_def Let_def play_loop_gapless)
next
  case (by_push r b n beforeSetup now)
  then show ?case
    using push_gapless[of "queue r" b n beforeSetup now] push_all_set[of "queue r" b n beforeSetup now]
    by simp
next
  case (by_shift r q)
  then show ?case
    by (auto simp: SourceQueue_shift_def split: list.splits dest: gapless_tl)
qed

text \<open>
  C1. \<^verbatim>\<open>setup\<close> at queue position 0 takes the clock's current time as \<open>startsAt\<close>; at a
  position \<open>p > 0\<close> it takes the previous source's \<open>startsAt\<close> plus its buffer duration
  minus its \<open>startsFrom\<close>. Consequently, in every queue that was set playing and then
  pushed to and shifted, each source starts at its predecessor's \<open>startsAt\<close> plus duration
  minus \<open>startsFrom\<close>.
\<close>

theorem gapless_timing_rule:
  "startsAt (Source_setup 0 now srcs s) = Some now \<and>
   (0 < p \<longrightarrow>
      startsAt (Source_setup p now srcs s) =
        Some (js_number (startsAt (srcs ! (p - 1))) + duration (buffer (srcs ! (p - 1)))
              - startsFrom (srcs ! (p - 1)))) \<and>
   (scheduled_playing r \<longrightarrow>
      (\<forall>i. Suc i < length (sources (queue r)) \<longrightarrow>
         (\<exists>a. startsAt (sources (queue r) ! i) = Some a \<and>
              startsAt (sources (queue r) ! Suc i) =
                Some (a + duration (buffer (sources (queue r) ! i))
                      - startsFrom (sources (queue r) ! i)))))"
proof (intro conjI impI allI)
  show "startsAt (Source_setup 0 now srcs s) = Some now"
    by (simp add: setup_startsAt)
next
  assume "0 < p"
  then show "startsAt (Source_setup p now srcs s) =
        Some (js_number (startsAt (srcs ! (p - 1))) + duration (buffer (srcs ! (p - 1)))
              - startsFrom (srcs ! (p - 1)))"
    by (simp add: setup_startsAt chain_time_def)
next
  fix i
  assume sp: "scheduled_playing r" and i: "Suc i < length (sources (queue r))"
  let ?us = "sources (queue r)"
  from sp have g: "gapless ?us" and a: "\<forall>u\<in>set ?us. startsAt u \<noteq> None"
    using scheduled_playing_inv by blast+
  from a i obtain x where x: "startsAt (?us ! i) = Some x"
    by (metis Suc_lessD nth_mem not_None_eq)
  from gapless_nth[OF g i] x
  show "\<exists>a. startsAt (?us ! i) = Some a \<and>
      startsAt (?us ! Suc i) = Some (a + duration (buffer (?us ! i)) - startsFrom (?us ! i))"
    by (simp add: chain_time_def js_number_def)
qed

theorem gapless_timing_rule_witness:
  "startsAt (Source_setup 0 5 [(Source_new \<lparr>duration = 15\<rparr>)\<lparr>startsAt := Some 2, startsFrom := 4\<rparr>]
       (Source_new \<lparr>duration = 15\<rparr>)) = Some 5 \<and>
   startsAt (Source_setup 1 5 [(Source_new \<lparr>duration = 15\<rparr>)\<lparr>startsAt := Some 2, startsFrom := 4\<rparr>]
       (Source_new \<lparr>duration = 15\<rparr>)) = Some 13 \<and>
   scheduled_playing (SourceQueue_play 5 two_queued) \<and>
   length (sources (queue (SourceQueue_play 5 two_queued))) = 2 \<and>
   startsFrom (sources (queue (SourceQueue_play 5 two_queued)) ! 0) = 4 \<and>
   startsAt (sources (queue (SourceQueue_play 5 two_queued)) ! 0) = Some 5 \<and>
   startsAt (sources (queue (SourceQueue_play 5 two_queued)) ! Suc 0) = Some 16"
proof -
  have sp: "scheduled_playing (SourceQueue_play 5 two_queued)"
    by (rule scheduled_playing.by_play) (simp add: two_queued_def SourceQueue_new_def)
  have src: "sources (queue (SourceQueue_play 5 two_queued)) =
     play_loop 5 [(Source_new \<lparr>duration = 15\<rparr>)\<lparr>number := Some 0, endCallback := Some 0, startsFrom := 4\<rparr>,
                  (Source_new \<lparr>duration = 15\<rparr>)\<lparr>number := Some 1\<rparr>]"
    by (simp add: two_queued_def SourceQueue_play_def Let_def push_sources SourceQueue_new_def
        scheduleFragment_beforeSetup_def)
  have len: "length (sources (queue (SourceQueue_play 5 two_queued))) = 2"
    by (simp add: src play_loop_def)
  have first: "startsAt (sources (queue (SourceQueue_play 5 two_queued)) ! 0) = Some 5"
    "startsFrom (sources (queue (SourceQueue_play 5 two_queued)) ! 0) = 4"
    "buffer (sources (queue (SourceQueue_play 5 two_queued)) ! 0) = \<lparr>duration = 15\<rparr>"
    by (simp_all add: src play_loop_def play_step_def Source_new_def Source_setup_def
        Source_schedule_def js_number_def Let_def)
  from gapless_timing_rule[where now = 5 and s = "Source_new \<lparr>duration = 15\<rparr>" and p = 1
      and srcs = "[(Source_new \<lparr>duration = 15\<rparr>)\<lparr>startsAt := Some 2, startsFrom := 4\<rparr>]"
      and r = "SourceQueue_play 5 two_queued"] sp len first
  show ?thesis
    by (simp add: js_number_def Source_new_def)
qed

section \<open>Facts about the operations\<close>

lemma and_then_simps [simp]:
  "and_then (Inl e) f = Inl e" "and_then (Inr a) f = f a"
  by (simp_all add: and_then_def)

lemma run_callback_simps [simp]:
  "run_callback Constructor_cb now r = Constructor_loaded now r"
  "run_callback (LoadAndSchedule_cb n offset) now r = Reader_scheduleFragment n offset now r"
  "run_callback (Seek_cb n off) now r = Seek_loaded n off now r"
  by (simp_all add: run_callback_def)


lemmas model_defs =
  Reader_metadata_done_def Reader_new_def Reader_loadFragment_def Reader_isFragmentLoaded_def
  Reader_fetchFragment_def Reader_xhr_onload_def Reader_decoded_def Constructor_loaded_def
  Reader_scheduleFragment_def Reader_loadAndScheduleFragment_def Reader_setCurrentTime_body_def
  Reader_seek_setup_def seek_prepare_def Seek_loaded_def Reader_getFragmentNumber_def
  FRAGMENT_DURATION_def js_mod_def SourceQueue_pause_def SourceQueue_play_def SourceQueue_empty_def
  SourceQueue_new_def SourceQueue_push_def SourceQueue_queue_def lodash_find_def
  scheduleFragment_beforeSetup_def Source_new_def Source_setup_def Source_schedule_def
  Source_cancel_def Source_elapsed_def cancel_loop_def play_loop_def play_step_def js_number_def

lemma push_length [simp]:
  "length (sources (SourceQueue_push b n f now q)) = Suc (length (sources q))"
  by (simp add: push_sources)

lemma pause_paused: "state (queue r) = STATE_PAUSED \<Longrightarrow> SourceQueue_pause now r = r"
  by (simp add: SourceQueue_pause_def)

lemma pause_fields [simp]:
  "fragments (SourceQueue_pause now r) = fragments r"
  "requests (SourceQueue_pause now r) = requests r"
  "currentFragmentNumber (SourceQueue_pause now r) = currentFragmentNumber r"
  "buffering (SourceQueue_pause now r) = buffering r"
  "waitingFragments (SourceQueue_pause now r) = waitingFragments r"
  "jumped (SourceQueue_pause now r) = jumped r"
  "state (queue (SourceQueue_pause now r)) = STATE_PAUSED"
  "length (sources (queue (SourceQueue_pause now r))) = length (sources (queue r))"
  by (simp_all add: SourceQueue_pause_def Let_def cancel_loop_def split: list.splits)


lemma pause_sources:
  "state (queue r) \<noteq> STATE_PAUSED \<Longrightarrow>
   sources (queue (SourceQueue_pause now r)) =
     (case sources (queue r) of
        [] \<Rightarrow> []
      | s # rest \<Rightarrow> (Source_cancel s)\<lparr>startsFrom := Source_elapsed now s\<rparr> # map Source_cancel rest)"
  by (simp add: SourceQueue_pause_def Let_def cancel_loop_def Source_elapsed_def Source_cancel_def
      split: list.splits)




lemma loadFragment_unloaded:
  "i < length (fragments r) \<Longrightarrow> fragment_buffer (fragments r ! i) = None \<Longrightarrow>
     Reader_loadFragment i k now r =
       Inr (r\<lparr>requests := requests r @ [(i, Fetching, k)], trace := trace r @ [XhrSend i]\<rparr>)"
  by (simp add: Reader_loadFragment_def Reader_isFragmentLoaded_def Reader_fetchFragment_def)

lemma loadFragment_loaded:
  "i < length (fragments r) \<Longrightarrow> fragment_buffer (fragments r ! i) \<noteq> None \<Longrightarrow>
     Reader_loadFragment i k now r = run_callback k now r"
  by (simp add: Reader_loadFragment_def Reader_isFragmentLoaded_def)

lemma loadFragment_calls_unloaded:
  "i < length (fragments r) \<Longrightarrow> fragment_buffer (fragments r ! i) = None \<Longrightarrow>
     loadFragment_calls i ks now r =
       Inr (r\<lparr>requests := requests r @ map (\<lambda>k. (i, Fetching, k)) ks,
              trace := trace r @ replicate (length ks) (XhrSend i)\<rparr>)"
proof (induction ks arbitrary: r)
  case Nil
  then show ?case by simp
next
  case (Cons k ks)
  let ?r1 = "r\<lparr>requests := requests r @ [(i, Fetching, k)], trace := trace r @ [XhrSend i]\<rparr>"
  have "loadFragment_calls i (k # ks) now r = loadFragment_calls i ks now ?r1"
    using Cons.prems by (simp add: loadFragment_unloaded)
  also have "\<dots> = Inr (?r1\<lparr>requests := requests ?r1 @ map (\<lambda>k. (i, Fetching, k)) ks,
              trace := trace ?r1 @ replicate (length ks) (XhrSend i)\<rparr>)"
    using Cons.prems by (intro Cons.IH) simp_all
  finally show ?case by (simp add: replicate_app_Cons_same)
qed

lemma empty_loop_nil [simp]: "empty_loop srcs = []"
  by (induction srcs) simp_all




lemma play_loop_length [simp]: "length (play_loop now srcs) = length srcs"
  by (simp add: play_loop_def)

lemma foldl_play_step_head:
  "\<forall>i\<in>set is. i \<noteq> 0 \<Longrightarrow> foldl (play_step now) xs is ! 0 = xs ! 0"
  by (induction "is" arbitrary: xs) (simp_all add: play_step_def)

lemma play_loop_head:
  "play_loop now (h # rest) =
     Source_schedule now (Source_setup 0 now (h # rest) h) # tl (play_loop now (h # rest))"
proof -
  have u: "[0..<length (h # rest)] = 0 # [1..<length (h # rest)]"
    by (simp add: upt_rec)
  have "play_loop now (h # rest) ! 0 = play_step now (h # rest) 0 ! 0"
    unfolding play_loop_def u by (simp add: foldl_play_step_head del: upt_Suc)
  then have "play_loop now (h # rest) ! 0 = Source_schedule now (Source_setup 0 now (h # rest) h)"
    by (simp add: play_step_def)
  moreover have "play_loop now (h # rest) \<noteq> []"
    using play_loop_length[of now "h # rest"] by (metis length_0_conv list.distinct(1))
  ultimately show ?thesis
    by (metis hd_conv_nth list.collapse)
qed

lemma resumed_head:
  "Source_schedule t2 (Source_setup 0 t2 srcs s) =
     s\<lparr>node := Some \<lparr>node_connected = True, node_started = Some (t2, startsFrom s)\<rparr>,
       startsAt := Some t2,
       endTimer := Some ((t2 + duration (buffer s) - startsFrom s - t2) * 1000 + 200)\<rparr>"
  by (simp add: Source_schedule_def Source_setup_def Let_def js_number_def)




lemmas page_defs =
  two_managers_def one_player_playing_def Manager_create_def Manager_add_def Manager_players_def
  Manager_players_ref_def Page_new_def Manager_new_def Manager_pauseAll_def
  Manager_destroyUnused_def pauseAll_step_def Player_pause_def Player_destroy_def

section \<open>Seek arithmetic (C2)\<close>




section \<open>End-of-fragment chaining (C3)\<close>



section \<open>Fragment loading (C4)\<close>

text \<open>
  C4 as stated fails: two calls of \<^verbatim>\<open>loadFragment(2, \<dots>)\<close> made before the first load
  completes send two transport requests for fragment 2, not one.
\<close>

theorem load_fragment_twice_fetches_twice:
  "(case loadFragment_calls 2 [LoadAndSchedule_cb 2 None, LoadAndSchedule_cb 2 None] 0 example_reader of
      Inl e \<Rightarrow> False
    | Inr r \<Rightarrow> length (filter (\<lambda>e. e = XhrSend 2) (trace r)) = 2 \<and>
               length (filter (\<lambda>e. e = XhrSend 2) (trace r)) \<noteq> 1 \<and>
               map fst (requests r) = [2, 2])"
  by (simp add: example_reader_def model_defs)

text \<open>
  C4, amended. For an in-range index \<open>i\<close>: if fragment \<open>i\<close> is loaded,
  \<^verbatim>\<open>loadFragment(i, k)\<close> is the synchronous run of \<open>k\<close>, with no transport request of its
  own. If it is not loaded, \<open>N\<close> calls made before any load completes send \<open>N\<close>
  transport requests for \<open>i\<close>, one per call, each carrying its caller's closure, and
  change nothing else. Each request answered by the transport starts one decode, and
  the delivery of each decode stores the buffer and runs the closure of that request.
\<close>

theorem load_fragment_not_deduplicated:
  "i < length (fragments r) \<longrightarrow>
     (fragment_buffer (fragments r ! i) \<noteq> None \<longrightarrow>
        Reader_loadFragment i k now r = run_callback k now r) \<and>
     (fragment_buffer (fragments r ! i) = None \<longrightarrow>
        loadFragment_calls i ks now r =
          Inr (r\<lparr>requests := requests r @ map (\<lambda>k. (i, Fetching, k)) ks,
                 trace := trace r @ replicate (length ks) (XhrSend i)\<rparr>) \<and>
        length (filter (\<lambda>e. e = XhrSend i) (trace r @ replicate (length ks) (XhrSend i))) =
          length (filter (\<lambda>e. e = XhrSend i) (trace r)) + length ks) \<and>
     (\<forall>j c. j < length (requests r) \<and> requests r ! j = (i, Fetching, c) \<longrightarrow>
        Reader_xhr_onload j r =
          Inr (r\<lparr>requests := (requests r)[j := (i, Decoding, c)],
                 trace := trace r @ [DecodeAudioData i]\<rparr>)) \<and>
     (\<forall>j c b. j < length (requests r) \<and> requests r ! j = (i, Decoding, c) \<longrightarrow>
        Reader_decoded j b now r =
          run_callback c now
            (r\<lparr>requests := take j (requests r) @ drop (Suc j) (requests r),
               fragments := (fragments r)[i := (fragments r ! i)\<lparr>fragment_buffer := Some b\<rparr>]\<rparr>))"
proof (intro impI conjI allI)
  assume i: "i < length (fragments r)"
  { assume "fragment_buffer (fragments r ! i) \<noteq> None"
    with i show "Reader_loadFragment i k now r = run_callback k now r"
      by (rule loadFragment_loaded) }
  { assume n: "fragment_buffer (fragments r ! i) = None"
    show "loadFragment_calls i ks now r =
          Inr (r\<lparr>requests := requests r @ map (\<lambda>k. (i, Fetching, k)) ks,
                 trace := trace r @ replicate (length ks) (XhrSend i)\<rparr>)"
      by (rule loadFragment_calls_unloaded[OF i n])
    show "length (filter (\<lambda>e. e = XhrSend i) (trace r @ replicate (length ks) (XhrSend i))) =
          length (filter (\<lambda>e. e = XhrSend i) (trace r)) + length ks"
      by simp }
  { fix j c assume "j < length (requests r) \<and> requests r ! j = (i, Fetching, c)"
    with i show "Reader_xhr_onload j r =
          Inr (r\<lparr>requests := (requests r)[j := (i, Decoding, c)],
                 trace := trace r @ [DecodeAudioData i]\<rparr>)"
      by (simp add: Reader_xhr_onload_def) }
  { fix j c b assume "j < length (requests r) \<and> requests r ! j = (i, Decoding, c)"
    with i show "Reader_decoded j b now r =
          run_callback c now
            (r\<lparr>requests := take j (requests r) @ drop (Suc j) (requests r),
               fragments := (fragments r)[i := (fragments r ! i)\<lparr>fragment_buffer := Some b\<rparr>]\<rparr>)"
      by (simp add: Reader_decoded_def) }
qed

theorem load_fragment_not_deduplicated_witness:
  "loadFragment_calls 2 [LoadAndSchedule_cb 2 None, Seek_cb 2 10, LoadAndSchedule_cb 2 None] 0 example_reader =
     Inr (example_reader\<lparr>requests := [(2, Fetching, LoadAndSchedule_cb 2 None), (2, Fetching, Seek_cb 2 10),
                                      (2, Fetching, LoadAndSchedule_cb 2 None)],
                         trace := [OnBufferingStart, XhrSend 2, XhrSend 2, XhrSend 2]\<rparr>) \<and>
   Reader_loadFragment 1 (LoadAndSchedule_cb 1 None) 0 example_reader =
     Inr (example_reader\<lparr>queue := SourceQueue_new\<lparr>sources :=
        [(Source_new \<lparr>duration = 15\<rparr>)\<lparr>number := Some 1, endCallback := Some 1\<rparr>]\<rparr>\<rparr>)"
proof -
  have a: "(2::nat) < length (fragments example_reader)"
    "fragment_buffer (fragments example_reader ! 2) = None"
    "requests example_reader = []" "trace example_reader = [OnBufferingStart]"
    by (simp_all add: example_reader_def Reader_new_def)
  have b: "(1::nat) < length (fragments example_reader)"
    "fragment_buffer (fragments example_reader ! 1) \<noteq> None"
    by (simp_all add: example_reader_def Reader_new_def)
  have c: "run_callback (LoadAndSchedule_cb 1 None) 0 example_reader =
     Inr (example_reader\<lparr>queue := SourceQueue_new\<lparr>sources :=
        [(Source_new \<lparr>duration = 15\<rparr>)\<lparr>number := Some 1, endCallback := Some 1\<rparr>]\<rparr>\<rparr>)"
    by (simp add: example_reader_def model_defs)
  from load_fragment_not_deduplicated[of 2 example_reader "LoadAndSchedule_cb 2 None" 0
      "[LoadAndSchedule_cb 2 None, Seek_cb 2 10, LoadAndSchedule_cb 2 None]"]
    load_fragment_not_deduplicated[of 1 example_reader "LoadAndSchedule_cb 1 None" 0 "[]"]
    a b c
  show ?thesis
    by (simp add: numeral_3_eq_3)
qed

section \<open>Duplicate pushes (C5)\<close>

text \<open>
  C5. The claim: a push for a fragment number that already has a source in the queue
  leaves the queue unchanged. The code: the duplicate check of \<^verbatim>\<open>push\<close> (line 1996)
  searches \<^verbatim>\<open>this.queue\<close>, which a \<^verbatim>\<open>SourceQueue\<close> does not have, instead of
  \<^verbatim>\<open>this.sources\<close>, so it never finds a duplicate. Pushing fragment 0 twice leaves two
  sources numbered 0; and in the run \<open>seek_during_prefetch\<close>, which the module produces
  by itself, fragment 1 is requested twice and queued twice.
\<close>

theorem duplicate_push_is_queued:
  "map number (sources (SourceQueue_push \<lparr>duration = 15\<rparr> 0 None 0
      (SourceQueue_push \<lparr>duration = 15\<rparr> 0 None 0 SourceQueue_new))) = [Some 0, Some 0] \<and>
   (case seek_during_prefetch of
      Inl e \<Rightarrow> False
    | Inr r \<Rightarrow> map number (sources (queue r)) = [Some 0, Some 1, Some 1] \<and>
               filter (\<lambda>e. e = XhrSend 1) (trace r) = [XhrSend 1, XhrSend 1])"
proof
  show "map number (sources (SourceQueue_push \<lparr>duration = 15\<rparr> 0 None 0
      (SourceQueue_push \<lparr>duration = 15\<rparr> 0 None 0 SourceQueue_new))) = [Some 0, Some 0]"
    by (simp add: model_defs Let_def)
  show "case seek_during_prefetch of
      Inl e \<Rightarrow> False
    | Inr r \<Rightarrow> map number (sources (queue r)) = [Some 0, Some 1, Some 1] \<and>
               filter (\<lambda>e. e = XhrSend 1) (trace r) = [XhrSend 1, XhrSend 1]"
    by (simp add: seek_during_prefetch_def model_defs Let_def nth_append)
qed

section \<open>Pause and resume (C6)\<close>

text \<open>
  C6. \<^verbatim>\<open>pause()\<close> on a paused queue changes nothing. Otherwise it leaves the queue
  paused with every source still queued, every end timer cancelled and every node
  disconnected, and nothing else of a source touched but the head's \<open>startsFrom\<close>; it
  caches the head's \<^verbatim>\<open>elapsed()\<close>, which is what \<^verbatim>\<open>elapsed()\<close> of the queue returns
  while paused and what it returned just before when the queue was playing, and sets
  the head's \<open>startsFrom\<close> to it. After the next \<^verbatim>\<open>play()\<close> at \<open>t2\<close> the head restarts
  from that offset, and \<^verbatim>\<open>elapsed()\<close> at any \<open>t3\<close> is the value before the pause plus
  \<open>t3 - t2\<close>.
\<close>

theorem pause_resume_continuity:
  "(state (queue r) = STATE_PAUSED \<longrightarrow> SourceQueue_pause t1 r = r) \<and>
   (state (queue r) \<noteq> STATE_PAUSED \<longrightarrow>
      (let r' = SourceQueue_pause t1 r
       in state (queue r') = STATE_PAUSED \<and>
          length (sources (queue r')) = length (sources (queue r)) \<and>
          (\<forall>j<length (sources (queue r)).
             endTimer (sources (queue r') ! j) = None \<and>
             (case node (sources (queue r') ! j) of None \<Rightarrow> True | Some n \<Rightarrow> \<not> node_connected n) \<and>
             buffer (sources (queue r') ! j) = buffer (sources (queue r) ! j) \<and>
             number (sources (queue r') ! j) = number (sources (queue r) ! j) \<and>
             endCallback (sources (queue r') ! j) = endCallback (sources (queue r) ! j) \<and>
             startsAt (sources (queue r') ! j) = startsAt (sources (queue r) ! j) \<and>
             (0 < j \<longrightarrow> startsFrom (sources (queue r') ! j) = startsFrom (sources (queue r) ! j))) \<and>
          (\<forall>h rest. sources (queue r) = h # rest \<longrightarrow>
             latestElapsed (queue r') = Some (Source_elapsed t1 h) \<and>
             startsFrom (sources (queue r') ! 0) = Source_elapsed t1 h \<and>
             SourceQueue_elapsed t (queue r') = Source_elapsed t1 h \<and>
             (latestElapsed (queue r) = None \<longrightarrow>
                SourceQueue_elapsed t1 (queue r) = Source_elapsed t1 h) \<and>
             (let r'' = SourceQueue_play t2 r'
              in state (queue r'') = STATE_PLAYING \<and>
                 SourceQueue_elapsed t3 (queue r'') = Source_elapsed t1 h + (t3 - t2) \<and>
                 map_option node_started (node (sources (queue r'') ! 0)) =
                   Some (Some (t2, Source_elapsed t1 h))))))"
proof (intro conjI impI)
  assume "state (queue r) = STATE_PAUSED"
  then show "SourceQueue_pause t1 r = r" by (rule pause_paused)
next
  assume np: "state (queue r) \<noteq> STATE_PAUSED"
  define r' where "r' = SourceQueue_pause t1 r"
  have src: "sources (queue r') =
     (case sources (queue r) of [] \<Rightarrow> []
      | s # rest \<Rightarrow> (Source_cancel s)\<lparr>startsFrom := Source_elapsed t1 s\<rparr> # map Source_cancel rest)"
    unfolding r'_def by (rule pause_sources[OF np])
  have st: "state (queue r') = STATE_PAUSED" "length (sources (queue r')) = length (sources (queue r))"
    by (simp_all add: r'_def)
  have each: "\<forall>j<length (sources (queue r)).
             endTimer (sources (queue r') ! j) = None \<and>
             (case node (sources (queue r') ! j) of None \<Rightarrow> True | Some n \<Rightarrow> \<not> node_connected n) \<and>
             buffer (sources (queue r') ! j) = buffer (sources (queue r) ! j) \<and>
             number (sources (queue r') ! j) = number (sources (queue r) ! j) \<and>
             endCallback (sources (queue r') ! j) = endCallback (sources (queue r) ! j) \<and>
             startsAt (sources (queue r') ! j) = startsAt (sources (queue r) ! j) \<and>
             (0 < j \<longrightarrow> startsFrom (sources (queue r') ! j) = startsFrom (sources (queue r) ! j))"
  proof (intro allI impI)
    fix j assume j: "j < length (sources (queue r))"
    then obtain h rest where hr: "sources (queue r) = h # rest"
      by (cases "sources (queue r)") auto
    show "endTimer (sources (queue r') ! j) = None \<and>
             (case node (sources (queue r') ! j) of None \<Rightarrow> True | Some n \<Rightarrow> \<not> node_connected n) \<and>
             buffer (sources (queue r') ! j) = buffer (sources (queue r) ! j) \<and>
             number (sources (queue r') ! j) = number (sources (queue r) ! j) \<and>
             endCallback (sources (queue r') ! j) = endCallback (sources (queue r) ! j) \<and>
             startsAt (sources (queue r') ! j) = startsAt (sources (queue r) ! j) \<and>
             (0 < j \<longrightarrow> startsFrom (sources (queue r') ! j) = startsFrom (sources (queue r) ! j))"
      using j by (cases j) (auto simp: src hr Source_cancel_def split: option.splits)
  qed
  have headpart: "\<forall>h rest. sources (queue r) = h # rest \<longrightarrow>
             latestElapsed (queue r') = Some (Source_elapsed t1 h) \<and>
             startsFrom (sources (queue r') ! 0) = Source_elapsed t1 h \<and>
             SourceQueue_elapsed t (queue r') = Source_elapsed t1 h \<and>
             (latestElapsed (queue r) = None \<longrightarrow>
                SourceQueue_elapsed t1 (queue r) = Source_elapsed t1 h) \<and>
             (let r'' = SourceQueue_play t2 r'
              in state (queue r'') = STATE_PLAYING \<and>
                 SourceQueue_elapsed t3 (queue r'') = Source_elapsed t1 h + (t3 - t2) \<and>
                 map_option node_started (node (sources (queue r'') ! 0)) =
                   Some (Some (t2, Source_elapsed t1 h)))"
  proof (intro allI impI)
    fix h rest assume hr: "sources (queue r) = h # rest"
    define h' where "h' = (Source_cancel h)\<lparr>startsFrom := Source_elapsed t1 h\<rparr>"
    have src': "sources (queue r') = h' # map Source_cancel rest"
      by (simp add: src hr h'_def)
    have le: "latestElapsed (queue r') = Some (Source_elapsed t1 h)"
      using np by (simp add: r'_def SourceQueue_pause_def Let_def hr cancel_loop_def)
    define r'' where "r'' = SourceQueue_play t2 r'"
    have q'': "state (queue r'') = STATE_PLAYING" "latestElapsed (queue r'') = None"
      "sources (queue r'') = play_loop t2 (h' # map Source_cancel rest)"
      using st(1) by (simp_all add: r''_def SourceQueue_play_def Let_def src')
    have hd'': "sources (queue r'') =
       Source_schedule t2 (Source_setup 0 t2 (h' # map Source_cancel rest) h')
         # tl (play_loop t2 (h' # map Source_cancel rest))"
      unfolding q''(3) by (rule play_loop_head)
    have e3: "SourceQueue_elapsed t3 (queue r'') = Source_elapsed t1 h + (t3 - t2)"
      by (simp add: SourceQueue_elapsed_def q''(2) hd'' resumed_head Source_elapsed_def
          js_number_def h'_def)
    have n3: "map_option node_started (node (sources (queue r'') ! 0)) =
                   Some (Some (t2, Source_elapsed t1 h))"
      by (simp add: hd'' resumed_head h'_def)
    show "latestElapsed (queue r') = Some (Source_elapsed t1 h) \<and>
             startsFrom (sources (queue r') ! 0) = Source_elapsed t1 h \<and>
             SourceQueue_elapsed t (queue r') = Source_elapsed t1 h \<and>
             (latestElapsed (queue r) = None \<longrightarrow>
                SourceQueue_elapsed t1 (queue r) = Source_elapsed t1 h) \<and>
             (let r'' = SourceQueue_play t2 r'
              in state (queue r'') = STATE_PLAYING \<and>
                 SourceQueue_elapsed t3 (queue r'') = Source_elapsed t1 h + (t3 - t2) \<and>
                 map_option node_started (node (sources (queue r'') ! 0)) =
                   Some (Some (t2, Source_elapsed t1 h)))"
      using le e3 n3 q''(1)
      by (simp add: Let_def r''_def[symmetric] src' h'_def SourceQueue_elapsed_def hr)
  qed
  show "let r' = SourceQueue_pause t1 r
       in state (queue r') = STATE_PAUSED \<and>
          length (sources (queue r')) = length (sources (queue r)) \<and>
          (\<forall>j<length (sources (queue r)).
             endTimer (sources (queue r') ! j) = None \<and>
             (case node (sources (queue r') ! j) of None \<Rightarrow> True | Some n \<Rightarrow> \<not> node_connected n) \<and>
             buffer (sources (queue r') ! j) = buffer (sources (queue r) ! j) \<and>
             number (sources (queue r') ! j) = number (sources (queue r) ! j) \<and>
             endCallback (sources (queue r') ! j) = endCallback (sources (queue r) ! j) \<and>
             startsAt (sources (queue r') ! j) = startsAt (sources (queue r) ! j) \<and>
             (0 < j \<longrightarrow> startsFrom (sources (queue r') ! j) = startsFrom (sources (queue r) ! j))) \<and>
          (\<forall>h rest. sources (queue r) = h # rest \<longrightarrow>
             latestElapsed (queue r') = Some (Source_elapsed t1 h) \<and>
             startsFrom (sources (queue r') ! 0) = Source_elapsed t1 h \<and>
             SourceQueue_elapsed t (queue r') = Source_elapsed t1 h \<and>
             (latestElapsed (queue r) = None \<longrightarrow>
                SourceQueue_elapsed t1 (queue r) = Source_elapsed t1 h) \<and>
             (let r'' = SourceQueue_play t2 r'
              in state (queue r'') = STATE_PLAYING \<and>
                 SourceQueue_elapsed t3 (queue r'') = Source_elapsed t1 h + (t3 - t2) \<and>
                 map_option node_started (node (sources (queue r'') ! 0)) =
                   Some (Some (t2, Source_elapsed t1 h))))"
    unfolding Let_def r'_def[symmetric]
    using st each headpart unfolding Let_def by blast
qed

theorem pause_resume_continuity_witness:
  "state (queue playing_reader) \<noteq> STATE_PAUSED \<and>
   SourceQueue_elapsed 6 (queue playing_reader) = 10 \<and>
   state (queue (SourceQueue_pause 6 playing_reader)) = STATE_PAUSED \<and>
   length (sources (queue (SourceQueue_pause 6 playing_reader))) = 2 \<and>
   endTimer (sources (queue (SourceQueue_pause 6 playing_reader)) ! 1) = None \<and>
   latestElapsed (queue (SourceQueue_pause 6 playing_reader)) = Some 10 \<and>
   startsFrom (sources (queue (SourceQueue_pause 6 playing_reader)) ! 0) = 10 \<and>
   SourceQueue_elapsed 50 (queue (SourceQueue_pause 6 playing_reader)) = 10 \<and>
   SourceQueue_elapsed 23 (queue (SourceQueue_play 20 (SourceQueue_pause 6 playing_reader))) = 13 \<and>
   SourceQueue_pause 7 (SourceQueue_pause 6 playing_reader) = SourceQueue_pause 6 playing_reader"
proof -
  define h where "h = hd (sources (queue playing_reader))"
  have s: "state (queue playing_reader) = STATE_PLAYING"
    "latestElapsed (queue playing_reader) = None"
    "length (sources (queue playing_reader)) = 2"
    by (simp_all add: playing_reader_def two_queued_def SourceQueue_play_def Let_def
        SourceQueue_new_def push_sources)
  then obtain rest where hr: "sources (queue playing_reader) = h # rest"
    unfolding h_def by (cases "sources (queue playing_reader)") simp_all
  have "h = sources (queue playing_reader) ! 0" by (simp add: hr)
  also have "\<dots> = \<lparr>buffer = \<lparr>duration = 15\<rparr>, number = Some 0,
        node = Some \<lparr>node_connected = True, node_started = Some (0, 4)\<rparr>,
        startsAt = Some 0, startsFrom = 4, endTimer = Some 11200, endCallback = Some 0\<rparr>"
    by (simp add: playing_reader_def two_queued_def example_reader_def model_defs Let_def)
  finally have e: "Source_elapsed 6 h = 10"
    by (simp add: Source_elapsed_def js_number_def)
  have np: "state (queue playing_reader) \<noteq> STATE_PAUSED" by (simp add: s)
  note th = pause_resume_continuity[of playing_reader 6 50 20 23, THEN conjunct2, rule_format, OF np,
      unfolded Let_def]
  note th2 = pause_resume_continuity[of "SourceQueue_pause 6 playing_reader" 7 50 20 23,
      THEN conjunct1, rule_format]
  from th have p: "state (queue (SourceQueue_pause 6 playing_reader)) = STATE_PAUSED"
    "length (sources (queue (SourceQueue_pause 6 playing_reader))) = length (sources (queue playing_reader))"
    by blast+
  from th s(3) have t: "endTimer (sources (queue (SourceQueue_pause 6 playing_reader)) ! 1) = None"
    by simp
  from th hr have c: "latestElapsed (queue (SourceQueue_pause 6 playing_reader)) = Some (Source_elapsed 6 h)"
    "startsFrom (sources (queue (SourceQueue_pause 6 playing_reader)) ! 0) = Source_elapsed 6 h"
    "SourceQueue_elapsed 50 (queue (SourceQueue_pause 6 playing_reader)) = Source_elapsed 6 h"
    "latestElapsed (queue playing_reader) = None \<longrightarrow>
       SourceQueue_elapsed 6 (queue playing_reader) = Source_elapsed 6 h"
    "SourceQueue_elapsed 23 (queue (SourceQueue_play 20 (SourceQueue_pause 6 playing_reader))) =
       Source_elapsed 6 h + (23 - 20)"
    by blast+
  from th2 p(1) have i: "SourceQueue_pause 7 (SourceQueue_pause 6 playing_reader) =
      SourceQueue_pause 6 playing_reader"
    by simp
  from np p t c i s e show ?thesis by simp
qed

section \<open>Debounced seeks (C7)\<close>

lemma debounce_timer_not_due: "not_due wall pg \<Longrightarrow> debounce_timer wall now pg = Inr pg"
  by (auto simp: debounce_timer_def not_due_def split: option.splits)

lemma seek_burst_collapses:
  "within_window (c # calls) \<Longrightarrow> not_due (fst c) pg \<Longrightarrow>
     seek_burst a (c # calls) now pg =
       Inr (pg\<lparr>debounce_pending :=
                Some (a, snd (last (c # calls)), fst (last (c # calls)) + DEBOUNCE_WAIT)\<rparr>)"
proof (induction calls arbitrary: c pg)
  case Nil
  then show ?case
    by (cases c) (simp add: debounce_timer_not_due Reader_setCurrentTime_def)
next
  case (Cons d calls)
  obtain w t where c: "c = (w, t)" by (cases c)
  define pg1 where "pg1 = Reader_setCurrentTime a t w pg"
  have nd: "not_due (fst d) pg1"
    using Cons.prems(1) by (simp add: pg1_def Reader_setCurrentTime_def not_due_def c)
  have w: "within_window (d # calls)" using Cons.prems(1) by simp
  have "seek_burst a (c # d # calls) now pg = seek_burst a (d # calls) now pg1"
    using Cons.prems(2) by (simp add: c debounce_timer_not_due pg1_def)
  also have "\<dots> = Inr (pg1\<lparr>debounce_pending :=
                Some (a, snd (last (d # calls)), fst (last (d # calls)) + DEBOUNCE_WAIT)\<rparr>)"
    by (rule Cons.IH[OF w nd])
  finally show ?case by (simp add: pg1_def Reader_setCurrentTime_def)
qed

text \<open>
  C7. A burst of \<^verbatim>\<open>setCurrentTime\<close> calls in which every call follows its predecessor
  by less than the debounce wait (in particular: all calls within one window) changes no
  player: no pause, no emptying, no load. What stays pending is the last requested
  time. The timer does nothing before the deadline; at the deadline it runs the wrapped
  function once, with the last time, on the reader as it then is, and leaves nothing
  pending, so no second seek follows. With the metadata loaded, that one run is the seek.
\<close>

theorem debounce_collapse:
  "calls \<noteq> [] \<and> within_window calls \<and> debounce_pending pg = None \<and>
   a < length (players pg) \<and> reader (players pg ! a) = Some r \<longrightarrow>
     (let tn = snd (last calls);
          deadline = fst (last calls) + DEBOUNCE_WAIT;
          pending = pg\<lparr>debounce_pending := Some (a, tn, deadline)\<rparr>
      in seek_burst a calls now pg = Inr pending \<and>
         players pending = players pg \<and>
         (\<forall>wall. wall < deadline \<longrightarrow> debounce_timer wall now pending = Inr pending) \<and>
         (\<forall>wall. deadline \<le> wall \<longrightarrow>
            debounce_timer wall now pending =
              and_then (Reader_setCurrentTime_body tn now r) (\<lambda>r'.
                Inr (pg\<lparr>debounce_pending := None,
                       players := (players pg)[a := (players pg ! a)\<lparr>reader := Some r'\<rparr>]\<rparr>))) \<and>
         (\<forall>r' wall later.
            debounce_timer wall later
              (pg\<lparr>debounce_pending := None,
                  players := (players pg)[a := (players pg ! a)\<lparr>reader := Some r'\<rparr>]\<rparr>) =
            Inr (pg\<lparr>debounce_pending := None,
                   players := (players pg)[a := (players pg ! a)\<lparr>reader := Some r'\<rparr>]\<rparr>)) \<and>
         (fragments r \<noteq> [] \<longrightarrow>
            Reader_setCurrentTime_body tn now r = Reader_seek_setup tn now (r\<lparr>jumped := True\<rparr>)))"
proof (intro impI)
  assume h: "calls \<noteq> [] \<and> within_window calls \<and> debounce_pending pg = None \<and>
   a < length (players pg) \<and> reader (players pg ! a) = Some r"
  then obtain c cs where calls: "calls = c # cs" by (cases calls) auto
  define tn where "tn = snd (last calls)"
  define deadline where "deadline = fst (last calls) + DEBOUNCE_WAIT"
  define pending where "pending = pg\<lparr>debounce_pending := Some (a, tn, deadline)\<rparr>"
  have nd: "not_due (fst c) pg" using h by (simp add: not_due_def)
  have 1: "seek_burst a calls now pg = Inr pending"
    using seek_burst_collapses[of c cs pg a now] h nd
    by (simp add: calls pending_def tn_def deadline_def)
  have 2: "players pending = players pg" by (simp add: pending_def)
  have 3: "\<forall>wall. wall < deadline \<longrightarrow> debounce_timer wall now pending = Inr pending"
    by (simp add: debounce_timer_not_due not_due_def pending_def)
  have 4: "\<forall>wall. deadline \<le> wall \<longrightarrow>
            debounce_timer wall now pending =
              and_then (Reader_setCurrentTime_body tn now r) (\<lambda>r'.
                Inr (pg\<lparr>debounce_pending := None,
                       players := (players pg)[a := (players pg ! a)\<lparr>reader := Some r'\<rparr>]\<rparr>))"
    using h by (simp add: debounce_timer_def pending_def)
  have 5: "\<forall>r' wall later.
            debounce_timer wall later
              (pg\<lparr>debounce_pending := None,
                  players := (players pg)[a := (players pg ! a)\<lparr>reader := Some r'\<rparr>]\<rparr>) =
            Inr (pg\<lparr>debounce_pending := None,
                   players := (players pg)[a := (players pg ! a)\<lparr>reader := Some r'\<rparr>]\<rparr>)"
    by (simp add: debounce_timer_def)
  have 6: "fragments r \<noteq> [] \<longrightarrow>
            Reader_setCurrentTime_body tn now r = Reader_seek_setup tn now (r\<lparr>jumped := True\<rparr>)"
    by (simp add: Reader_setCurrentTime_body_def Let_def)
  show "let tn = snd (last calls);
          deadline = fst (last calls) + DEBOUNCE_WAIT;
          pending = pg\<lparr>debounce_pending := Some (a, tn, deadline)\<rparr>
      in seek_burst a calls now pg = Inr pending \<and>
         players pending = players pg \<and>
         (\<forall>wall. wall < deadline \<longrightarrow> debounce_timer wall now pending = Inr pending) \<and>
         (\<forall>wall. deadline \<le> wall \<longrightarrow>
            debounce_timer wall now pending =
              and_then (Reader_setCurrentTime_body tn now r) (\<lambda>r'.
                Inr (pg\<lparr>debounce_pending := None,
                       players := (players pg)[a := (players pg ! a)\<lparr>reader := Some r'\<rparr>]\<rparr>))) \<and>
         (\<forall>r' wall later.
            debounce_timer wall later
              (pg\<lparr>debounce_pending := None,
                  players := (players pg)[a := (players pg ! a)\<lparr>reader := Some r'\<rparr>]\<rparr>) =
            Inr (pg\<lparr>debounce_pending := None,
                   players := (players pg)[a := (players pg ! a)\<lparr>reader := Some r'\<rparr>]\<rparr>)) \<and>
         (fragments r \<noteq> [] \<longrightarrow>
            Reader_setCurrentTime_body tn now r = Reader_seek_setup tn now (r\<lparr>jumped := True\<rparr>))"
    unfolding Let_def tn_def[symmetric] deadline_def[symmetric] pending_def[symmetric]
    using 1 2 3 4 5 6 by blast
qed

theorem debounce_collapse_witness:
  "within_window [(0, 10), (100, 20), (250, 40)] \<and>
   debounce_pending one_player_playing = None \<and>
   reader (players one_player_playing ! 0) = Some playing_reader \<and>
   seek_burst 0 [(0, 10), (100, 20), (250, 40)] 7 one_player_playing =
     Inr (one_player_playing\<lparr>debounce_pending := Some (0, 40, 550)\<rparr>) \<and>
   debounce_timer 549 7 (one_player_playing\<lparr>debounce_pending := Some (0, 40, 550)\<rparr>) =
     Inr (one_player_playing\<lparr>debounce_pending := Some (0, 40, 550)\<rparr>) \<and>
   debounce_timer 550 7 (one_player_playing\<lparr>debounce_pending := Some (0, 40, 550)\<rparr>) =
     and_then (Reader_seek_setup 40 7 (playing_reader\<lparr>jumped := True\<rparr>)) (\<lambda>r'.
       Inr (one_player_playing\<lparr>debounce_pending := None,
              players := (players one_player_playing)[0 := (players one_player_playing ! 0)\<lparr>reader := Some r'\<rparr>]\<rparr>))"
proof -
  have h: "within_window [(0, 10), (100, 20), (250, 40)]"
    "debounce_pending one_player_playing = None"
    "0 < length (players one_player_playing)"
    "reader (players one_player_playing ! 0) = Some playing_reader"
    "fragments playing_reader \<noteq> []"
    by (simp_all add: DEBOUNCE_WAIT_def page_defs Let_def playing_reader_def two_queued_def
        SourceQueue_play_def example_reader_def)
  note th = debounce_collapse[where calls = "[(0, 10), (100, 20), (250, 40)]" and pg = one_player_playing
      and a = 0 and r = playing_reader and now = 7, unfolded Let_def, rule_format]
  have c: "[(0::real, 10::real), (100, 20), (250, 40)] \<noteq> [] \<and>
    within_window [(0, 10), (100, 20), (250, 40)] \<and>
    debounce_pending one_player_playing = None \<and>
    0 < length (players one_player_playing) \<and>
    reader (players one_player_playing ! 0) = Some playing_reader"
    using h by simp
  from th[OF c] h(5)
  have 1: "seek_burst 0 [(0, 10), (100, 20), (250, 40)] 7 one_player_playing =
     Inr (one_player_playing\<lparr>debounce_pending := Some (0, 40, 550)\<rparr>)"
    and 2: "debounce_timer 549 7 (one_player_playing\<lparr>debounce_pending := Some (0, 40, 550)\<rparr>) =
     Inr (one_player_playing\<lparr>debounce_pending := Some (0, 40, 550)\<rparr>)"
    and 3: "debounce_timer 550 7 (one_player_playing\<lparr>debounce_pending := Some (0, 40, 550)\<rparr>) =
     and_then (Reader_seek_setup 40 7 (playing_reader\<lparr>jumped := True\<rparr>)) (\<lambda>r'.
       Inr (one_player_playing\<lparr>debounce_pending := None,
              players := (players one_player_playing)[0 := (players one_player_playing ! 0)\<lparr>reader := Some r'\<rparr>]\<rparr>))"
    by (simp_all add: DEBOUNCE_WAIT_def)
  from h 1 2 3 show ?thesis by simp
qed

section \<open>Out-of-range loads (C8)\<close>

text \<open>
  C8. For every index greater than or equal to the number of fragments,
  \<^verbatim>\<open>loadFragment(index, callback)\<close> returns the reader as it was: the callback has not
  run, no transport request was sent, nothing of the reader or its queue has changed and
  no error is raised. The same holds for the prefetch \<^verbatim>\<open>loadAndScheduleFragment(index)\<close>.
\<close>

theorem out_of_range_load_noop:
  "length (fragments r) \<le> n \<Longrightarrow>
     Reader_loadFragment n k now r = Inr r \<and>
     Reader_loadAndScheduleFragment n offset now r = Inr r"
  by (simp add: Reader_loadAndScheduleFragment_def Reader_loadFragment_def cong: if_cong)

theorem out_of_range_load_noop_witness:
  "length (fragments example_reader) \<le> 4 \<and>
   Reader_loadFragment 4 (Seek_cb 4 10) 0 example_reader = Inr example_reader \<and>
   Reader_loadAndScheduleFragment 4 None 0 example_reader = Inr example_reader"
  using out_of_range_load_noop[of example_reader 4 "Seek_cb 4 10" 0 None]
  by (simp add: example_reader_def)

section \<open>Mute and volume (C9)\<close>

text \<open>
  C9. \<^verbatim>\<open>mute()\<close> sets the shared gain to 0 and the muted flag; a following
  \<^verbatim>\<open>setVolume(v)\<close> with \<open>v \<noteq> 0\<close> sets the gain to \<open>v\<close>, so the output is audible, and
  leaves the muted flag set.
\<close>

theorem setVolume_unmutes_gain_only:
  "gain (Manager_mute m) = 0 \<and> Manager_muted (Manager_mute m) \<and>
   (v \<noteq> 0 \<longrightarrow>
      gain (Manager_setVolume v (Manager_mute m)) = v \<and>
      gain (Manager_setVolume v (Manager_mute m)) \<noteq> 0 \<and>
      Manager_muted (Manager_setVolume v (Manager_mute m)))"
  by (simp add: Manager_mute_def Manager_setVolume_def Manager_muted_def)

theorem setVolume_unmutes_gain_only_witness:
  "gain (Manager_setVolume (1/2) (Manager_mute Manager_new)) = 1/2 \<and>
   Manager_muted (Manager_setVolume (1/2) (Manager_mute Manager_new))"
  using setVolume_unmutes_gain_only[of Manager_new "1/2"]
  by simp

section \<open>The shared players array (C10)\<close>

lemma debounce_calls_keeps [simp]:
  "managers (debounce_calls a wall added pg) = managers pg"
  "arrays (debounce_calls a wall added pg) = arrays pg"
  "prototype_players (debounce_calls a wall added pg) = prototype_players pg"
  "players (debounce_calls a wall added pg) = players pg"
  by (induction added arbitrary: pg)
     (simp_all add: debounce_calls_def Reader_setCurrentTime_def split: event.splits)

lemma reachable_inv: "reachable pg \<Longrightarrow> page_inv pg"
proof (induction rule: reachable.induct)
  case loaded
  then show ?case by (simp add: page_inv_def Page_new_def)
next
  case (created pg)
  then show ?case
    by (auto simp: page_inv_def Manager_create_def Manager_new_def nth_append)
next
  case (added pg m)
  then show ?case by (simp add: page_inv_def Manager_add_def Let_def)
next
  case (muted pg m)
  then show ?case
    by (auto simp: page_inv_def on_manager_def Manager_mute_def nth_list_update)
next
  case (unmuted pg m)
  then show ?case
    by (auto simp: page_inv_def on_manager_def Manager_unmute_def Manager_setVolume_def Let_def
        nth_list_update)
next
  case (volume_set pg m v)
  then show ?case
    by (auto simp: page_inv_def on_manager_def Manager_setVolume_def nth_list_update)
next
  case (paused_all pg m except now pg')
  then show ?case
    by (auto simp: page_inv_def Manager_pauseAll_def and_then_def split: sum.splits)
next
  case (destroyed_unused pg m pg')
  then show ?case
    by (auto simp: page_inv_def Manager_destroyUnused_def and_then_def split: sum.splits)
next
  case (reader_stepped pg a wall step pg')
  then show ?case
    by (auto simp: page_inv_def on_reader_def and_then_def split: sum.splits if_splits option.splits)
next
  case (seek_asked pg a time wall)
  then show ?case by (simp add: page_inv_def Reader_setCurrentTime_def)
next
  case (timer_ran pg wall now pg')
  then show ?case
    by (auto simp: page_inv_def debounce_timer_def and_then_def
        split: sum.splits if_splits option.splits)
qed

lemma reachable_shared:
  "reachable pg \<Longrightarrow> m < length (managers pg) \<Longrightarrow>
     Manager_players_ref pg m = prototype_players pg \<and> prototype_players pg < length (arrays pg)"
  using reachable_inv[of pg] by (simp add: page_inv_def Manager_players_ref_def)

lemma pauseAll_step_paused: "pauseAll_step except now p = Inr p' \<Longrightarrow> is_paused p'"
  by (auto simp: pauseAll_step_def Player_pause_def is_paused_def split: option.splits if_splits)

lemma pauseAll_loop_length:
  "pauseAll_loop except now listed ps = Inr ps' \<Longrightarrow> length ps' = length ps"
proof (induction listed arbitrary: ps)
  case Nil
  then show ?case by simp
next
  case (Cons b listed)
  then show ?case
    by (auto simp: and_then_def split: if_splits sum.splits)
qed

lemma pauseAll_loop_keeps_paused:
  "pauseAll_loop except now listed ps = Inr ps' \<Longrightarrow> a < length ps \<Longrightarrow> is_paused (ps ! a) \<Longrightarrow>
     is_paused (ps' ! a)"
proof (induction listed arbitrary: ps)
  case Nil
  then show ?case by simp
next
  case (Cons b listed)
  from Cons.prems(1) obtain p where b: "b < length ps" and p: "pauseAll_step except now (ps ! b) = Inr p"
    and rest: "pauseAll_loop except now listed (ps[b := p]) = Inr ps'"
    by (auto simp: and_then_def split: if_splits sum.splits)
  have "is_paused (ps[b := p] ! a)"
    using Cons.prems(2,3) pauseAll_step_paused[OF p] by (cases "a = b") simp_all
  with rest Cons.prems(2) show ?case
    using Cons.IH[of "ps[b := p]"] by simp
qed

lemma pauseAll_loop_paused:
  "pauseAll_loop except now listed ps = Inr ps' \<Longrightarrow> a \<in> set listed \<Longrightarrow> is_paused (ps' ! a)"
proof (induction listed arbitrary: ps)
  case Nil
  then show ?case by simp
next
  case (Cons b listed)
  from Cons.prems(1) obtain p where b: "b < length ps" and p: "pauseAll_step except now (ps ! b) = Inr p"
    and rest: "pauseAll_loop except now listed (ps[b := p]) = Inr ps'"
    by (auto simp: and_then_def split: if_splits sum.splits)
  show ?case
  proof (cases "a = b")
    case True
    have "is_paused (ps[b := p] ! a)"
      using True b pauseAll_step_paused[OF p] by simp
    with rest b True show ?thesis
      using pauseAll_loop_keeps_paused[of except now listed "ps[b := p]" ps' a] by simp
  next
    case False
    with Cons.prems(2) have "a \<in> set listed" by simp
    with rest show ?thesis by (rule Cons.IH)
  qed
qed

lemma destroyUnused_loop_keeps_destroyed:
  "destroyUnused_loop listed ps = Inr (listed', ps') \<Longrightarrow> a < length ps \<Longrightarrow>
     reader (ps ! a) = None \<Longrightarrow> reader (ps' ! a) = None"
proof (induction listed ps rule: destroyUnused_loop.induct)
  case (1 b c rest ps)
  from "1.prems"(1) obtain p where b: "b < length ps" and p: "Player_destroy (ps ! b) = Inr p"
    and r: "destroyUnused_loop (c # rest) (ps[b := p]) = Inr (listed', ps')"
    by (auto simp: and_then_def split: if_splits sum.splits)
  from p "1.prems"(3) have "a \<noteq> b"
    by (auto simp: Player_destroy_def)
  with "1.prems" have "reader (ps[b := p] ! a) = None" by simp
  with "1.IH"[OF b r] "1.prems"(2) show ?case by simp
qed simp_all

lemma destroyUnused_loop_destroys:
  "destroyUnused_loop listed ps = Inr (listed', ps') \<Longrightarrow> a \<in> set (butlast listed) \<Longrightarrow>
     reader (ps' ! a) = None"
proof (induction listed ps rule: destroyUnused_loop.induct)
  case (1 b c rest ps)
  from "1.prems"(1) obtain p where b: "b < length ps" and p: "Player_destroy (ps ! b) = Inr p"
    and r: "destroyUnused_loop (c # rest) (ps[b := p]) = Inr (listed', ps')"
    by (auto simp: and_then_def split: if_splits sum.splits)
  show ?case
  proof (cases "a = b")
    case True
    from p have "reader p = None" by (auto simp: Player_destroy_def split: option.splits)
    with True b have "reader (ps[b := p] ! a) = None" by simp
    with r b True show ?thesis
      using destroyUnused_loop_keeps_destroyed[of "c # rest" "ps[b := p]" listed' ps' a] by simp
  next
    case False
    with "1.prems"(2) have "a \<in> set (butlast (c # rest))" by simp
    with "1.IH"[OF b r] show ?thesis by simp
  qed
qed auto

lemma destroyUnused_loop_leaves_last:
  "destroyUnused_loop listed ps = Inr (listed', ps') \<Longrightarrow> listed \<noteq> [] \<Longrightarrow> listed' = [last listed]"
proof (induction listed ps rule: destroyUnused_loop.induct)
  case (1 b c rest ps)
  from "1.prems"(1) obtain p where b: "b < length ps"
    and r: "destroyUnused_loop (c # rest) (ps[b := p]) = Inr (listed', ps')"
    by (auto simp: and_then_def split: if_splits sum.splits)
  with "1.IH"[OF b r] show ?case by simp
qed auto


lemma reachable_two_managers: "reachable two_managers"
  unfolding two_managers_def by (intro reachable.created reachable.loaded)

lemma reachable_one_player_playing: "reachable one_player_playing"
proof -
  have r: "reachable (fst (Manager_add 0 two_managers))"
    by (rule reachable.added[OF reachable_two_managers])
       (simp add: two_managers_def Manager_create_def Page_new_def)
  have "on_reader 0 0 (\<lambda>r. Inr playing_reader) (fst (Manager_add 0 two_managers)) = Inr one_player_playing"
    by (simp add: on_reader_def debounce_calls_def page_defs Let_def playing_reader_def two_queued_def
        SourceQueue_play_def example_reader_def Reader_new_def SourceQueue_new_def)
  with r show ?thesis by (rule reachable.reader_stepped)
qed

lemma reachable_two_players: "reachable (fst (Manager_add 0 one_player_playing))"
  by (rule reachable.added[OF reachable_one_player_playing]) (simp add: page_defs Let_def)

text \<open>
  C10. On every page that the module's operations produce, any two managers \<open>m1\<close> and
  \<open>m2\<close> read the same array as \<^verbatim>\<open>this.players\<close>. A player added through \<open>m1\<close> is
  appended to the players that \<open>m2\<close> lists, whose list is therefore not what it was.
  \<^verbatim>\<open>pauseAll\<close> called on \<open>m2\<close> pauses every player that \<open>m1\<close> lists, and
  \<^verbatim>\<open>destroyUnused\<close> called on \<open>m2\<close> destroys every player that \<open>m1\<close> lists but the last
  and leaves \<open>m1\<close> with only the last listed.
\<close>

theorem managers_share_players:
  "reachable pg \<and> m1 < length (managers pg) \<and> m2 < length (managers pg) \<longrightarrow>
     Manager_players_ref pg m1 = Manager_players_ref pg m2 \<and>
     (case Manager_add m1 pg of
        (pg1, a) \<Rightarrow>
          a = length (players pg) \<and>
          players pg1 = players pg @
            [\<lparr>player_id = length (Manager_players pg m1), reader = Some Reader_new, pausePolls = 0\<rparr>] \<and>
          Manager_players pg1 m2 = Manager_players pg m2 @ [a] \<and>
          a \<in> set (Manager_players pg1 m2) \<and>
          Manager_players pg1 m2 \<noteq> Manager_players pg m2) \<and>
     (b \<in> set (Manager_players pg m1) \<and> Manager_pauseAll except m2 now pg = Inr pg' \<longrightarrow>
        (\<exists>r. reader (players pg' ! b) = Some r \<and> state (queue r) = STATE_PAUSED)) \<and>
     (b \<in> set (butlast (Manager_players pg m1)) \<and> Manager_destroyUnused m2 pg = Inr pg' \<longrightarrow>
        reader (players pg' ! b) = None \<and>
        Manager_players pg' m1 = [last (Manager_players pg m1)])"
proof (intro impI)
  assume h: "reachable pg \<and> m1 < length (managers pg) \<and> m2 < length (managers pg)"
  define ar where "ar = prototype_players pg"
  from h have r1: "Manager_players_ref pg m1 = ar" and r2: "Manager_players_ref pg m2 = ar"
    and ar: "ar < length (arrays pg)"
    using reachable_shared[of pg m1] reachable_shared[of pg m2] by (simp_all add: ar_def)
  have same: "Manager_players pg m1 = Manager_players pg m2"
    by (simp add: Manager_players_def r1 r2)
  from h have o: "own_players (managers pg ! m1) = None" "own_players (managers pg ! m2) = None"
    using reachable_inv[of pg] by (simp_all add: page_inv_def)
  have add: "case Manager_add m1 pg of
        (pg1, a) \<Rightarrow>
          a = length (players pg) \<and>
          players pg1 = players pg @
            [\<lparr>player_id = length (Manager_players pg m1), reader = Some Reader_new, pausePolls = 0\<rparr>] \<and>
          Manager_players pg1 m2 = Manager_players pg m2 @ [a] \<and>
          a \<in> set (Manager_players pg1 m2) \<and>
          Manager_players pg1 m2 \<noteq> Manager_players pg m2"
    using ar r1 r2 o
    by (simp add: Manager_add_def Let_def Manager_players_def Manager_players_ref_def)
  have pause: "b \<in> set (Manager_players pg m1) \<and> Manager_pauseAll except m2 now pg = Inr pg' \<longrightarrow>
        (\<exists>r. reader (players pg' ! b) = Some r \<and> state (queue r) = STATE_PAUSED)"
  proof
    assume a: "b \<in> set (Manager_players pg m1) \<and> Manager_pauseAll except m2 now pg = Inr pg'"
    then obtain ps where ps: "pauseAll_loop except now (Manager_players pg m2) (players pg) = Inr ps"
      and pg': "pg' = pg\<lparr>players := ps\<rparr>"
      by (auto simp: Manager_pauseAll_def and_then_def split: sum.splits)
    from pauseAll_loop_paused[OF ps] a same have "is_paused (ps ! b)" by simp
    then show "\<exists>r. reader (players pg' ! b) = Some r \<and> state (queue r) = STATE_PAUSED"
      by (auto simp: pg' is_paused_def split: option.splits)
  qed
  have destroy: "b \<in> set (butlast (Manager_players pg m1)) \<and> Manager_destroyUnused m2 pg = Inr pg' \<longrightarrow>
        reader (players pg' ! b) = None \<and>
        Manager_players pg' m1 = [last (Manager_players pg m1)]"
  proof
    assume a: "b \<in> set (butlast (Manager_players pg m1)) \<and> Manager_destroyUnused m2 pg = Inr pg'"
    then obtain listed ps where l: "destroyUnused_loop (Manager_players pg m2) (players pg) = Inr (listed, ps)"
      and pg': "pg' = pg\<lparr>players := ps, arrays := (arrays pg)[ar := listed]\<rparr>"
      by (auto simp: Manager_destroyUnused_def and_then_def r2 split: sum.splits)
    from a same have ne: "Manager_players pg m2 \<noteq> []" by auto
    have 1: "reader (players pg' ! b) = None"
      using destroyUnused_loop_destroys[OF l] a same by (simp add: pg')
    have 2: "Manager_players pg' m1 = [last (Manager_players pg m1)]"
      using destroyUnused_loop_leaves_last[OF l ne] ar o same
      by (simp add: pg' Manager_players_def Manager_players_ref_def ar_def)
    from 1 2 show "reader (players pg' ! b) = None \<and>
        Manager_players pg' m1 = [last (Manager_players pg m1)]" ..
  qed
  from r1 r2 add pause destroy
  show "Manager_players_ref pg m1 = Manager_players_ref pg m2 \<and>
     (case Manager_add m1 pg of
        (pg1, a) \<Rightarrow>
          a = length (players pg) \<and>
          players pg1 = players pg @
            [\<lparr>player_id = length (Manager_players pg m1), reader = Some Reader_new, pausePolls = 0\<rparr>] \<and>
          Manager_players pg1 m2 = Manager_players pg m2 @ [a] \<and>
          a \<in> set (Manager_players pg1 m2) \<and>
          Manager_players pg1 m2 \<noteq> Manager_players pg m2) \<and>
     (b \<in> set (Manager_players pg m1) \<and> Manager_pauseAll except m2 now pg = Inr pg' \<longrightarrow>
        (\<exists>r. reader (players pg' ! b) = Some r \<and> state (queue r) = STATE_PAUSED)) \<and>
     (b \<in> set (butlast (Manager_players pg m1)) \<and> Manager_destroyUnused m2 pg = Inr pg' \<longrightarrow>
        reader (players pg' ! b) = None \<and>
        Manager_players pg' m1 = [last (Manager_players pg m1)])"
    by simp
qed

theorem managers_share_players_witness:
  "reachable two_managers \<and> reachable one_player_playing \<and>
   Manager_players two_managers 1 = [] \<and>
   Manager_players (fst (Manager_add 0 two_managers)) 1 = [0] \<and>
   Manager_players one_player_playing 0 = [0] \<and>
   (\<exists>r. reader (players one_player_playing ! 0) = Some r \<and> state (queue r) = STATE_PLAYING) \<and>
   (\<exists>pg'. Manager_pauseAll None 1 5 one_player_playing = Inr pg' \<and>
      (\<exists>r. reader (players pg' ! 0) = Some r \<and> state (queue r) = STATE_PAUSED)) \<and>
   Manager_players (fst (Manager_add 0 one_player_playing)) 0 = [0, 1] \<and>
   (\<exists>pg'. Manager_destroyUnused 1 (fst (Manager_add 0 one_player_playing)) = Inr pg' \<and>
      reader (players pg' ! 0) = None \<and> Manager_players pg' 0 = [1])"
proof -
  have n: "(0::nat) < length (managers two_managers)" "1 < length (managers two_managers)"
    "(0::nat) < length (managers one_player_playing)" "1 < length (managers one_player_playing)"
    "(0::nat) < length (managers (fst (Manager_add 0 one_player_playing)))"
    "1 < length (managers (fst (Manager_add 0 one_player_playing)))"
    by (simp_all add: page_defs Let_def)
  have l: "Manager_players one_player_playing 0 = [0]"
    "Manager_players (fst (Manager_add 0 one_player_playing)) 0 = [0, 1]"
    "Manager_players two_managers 1 = []"
    by (simp_all add: page_defs Let_def)
  have l': "Manager_players two_managers (Suc 0) = []" "players two_managers = []"
    by (simp_all add: page_defs Let_def)
  have p: "\<exists>r. reader (players one_player_playing ! 0) = Some r \<and> state (queue r) = STATE_PLAYING"
    by (simp add: page_defs Let_def playing_reader_def two_queued_def SourceQueue_play_def
        SourceQueue_new_def)
  obtain pg2 where pg2: "Manager_pauseAll None 1 5 one_player_playing = Inr pg2"
    by (cases "Manager_pauseAll None 1 5 one_player_playing") (simp_all add: page_defs Let_def)
  obtain pg3 where pg3: "Manager_destroyUnused 1 (fst (Manager_add 0 one_player_playing)) = Inr pg3"
    by (cases "Manager_destroyUnused 1 (fst (Manager_add 0 one_player_playing))")
       (simp_all add: page_defs Let_def)
  note a = managers_share_players[where pg = two_managers and ?m1.0 = 0 and ?m2.0 = 1, rule_format]
  note b = managers_share_players[where pg = one_player_playing and ?m1.0 = 0 and ?m2.0 = 1
      and b = 0 and except = None and now = 5 and pg' = pg2, rule_format]
  note c = managers_share_players[where pg = "fst (Manager_add 0 one_player_playing)" and ?m1.0 = 0
      and ?m2.0 = 1 and b = 0 and pg' = pg3, rule_format]
  have A: "reachable two_managers \<and> 0 < length (managers two_managers) \<and>
      1 < length (managers two_managers)"
    using reachable_two_managers n(1,2) by (intro conjI)
  have B: "reachable one_player_playing \<and> 0 < length (managers one_player_playing) \<and>
      1 < length (managers one_player_playing)"
    using reachable_one_player_playing n(3,4) by (intro conjI)
  have C: "reachable (fst (Manager_add 0 one_player_playing)) \<and>
      0 < length (managers (fst (Manager_add 0 one_player_playing))) \<and>
      1 < length (managers (fst (Manager_add 0 one_player_playing)))"
    using reachable_two_players n(5,6) by (intro conjI)
  from a[OF A] have "case Manager_add 0 two_managers of
        (pg1, a) \<Rightarrow>
          a = length (players two_managers) \<and>
          players pg1 = players two_managers @
            [\<lparr>player_id = length (Manager_players two_managers 0), reader = Some Reader_new, pausePolls = 0\<rparr>] \<and>
          Manager_players pg1 1 = Manager_players two_managers 1 @ [a] \<and>
          a \<in> set (Manager_players pg1 1) \<and>
          Manager_players pg1 1 \<noteq> Manager_players two_managers 1"
    by (rule conjunct2[THEN conjunct1])
  then have 1: "Manager_players (fst (Manager_add 0 two_managers)) 1 = [0]"
    by (cases "Manager_add 0 two_managers") (simp add: l')
  from b[OF B] have "0 \<in> set (Manager_players one_player_playing 0) \<and>
      Manager_pauseAll None 1 5 one_player_playing = Inr pg2 \<longrightarrow>
      (\<exists>r. reader (players pg2 ! 0) = Some r \<and> state (queue r) = STATE_PAUSED)"
    by (rule conjunct2[THEN conjunct2, THEN conjunct1])
  then have 2: "\<exists>r. reader (players pg2 ! 0) = Some r \<and> state (queue r) = STATE_PAUSED"
    using pg2 by (simp add: l(1))
  from c[OF C] have "0 \<in> set (butlast (Manager_players (fst (Manager_add 0 one_player_playing)) 0)) \<and>
      Manager_destroyUnused 1 (fst (Manager_add 0 one_player_playing)) = Inr pg3 \<longrightarrow>
      reader (players pg3 ! 0) = None \<and>
      Manager_players pg3 0 = [last (Manager_players (fst (Manager_add 0 one_player_playing)) 0)]"
    by (rule conjunct2[THEN conjunct2, THEN conjunct2])
  then have 3: "reader (players pg3 ! 0) = None \<and> Manager_players pg3 0 = [1]"
    using pg3 by (simp add: l(2))
  from 1 2 3 l p pg2 pg3 reachable_two_managers reachable_one_player_playing show ?thesis
    by blast
qed

end
